theory Spec2Isabelle
  imports Complex_Main "HOL-Library.Multiset" "HOL-Library.Product_Lexorder"
    "HOL-Library.List_Lexorder" "HOL-Library.Char_ord"
begin

section \<open>Data model: cells, rows, frames, files\<close>

text \<open>
  The program works on pandas data frames read from CSV files. A cell is a number, a
  text, or missing (pandas NaN, Python None). Python floats are idealised as reals, so
  rounding is outside the model. A row maps column names to cells; a frame is the
  ordered list of its column names with the ordered list of its rows.
\<close>

datatype val = Num real | Str string | Null

type_synonym row = "string \<rightharpoonup> val"

record frame =
  columns :: "string list"
  rows :: "row list"

text \<open>The value read at a column of a row; a column the row does not carry reads as missing.\<close>

definition cell :: "row \<Rightarrow> string \<Rightarrow> val" where
  "cell r c = (case r c of Some v \<Rightarrow> v | None \<Rightarrow> Null)"

text \<open>A frame as \<open>read_csv\<close> builds it: distinct column names, every row carrying exactly the columns.\<close>

definition wf_frame :: "frame \<Rightarrow> bool" where
  "wf_frame df = (distinct (columns df) \<and> list_all (\<lambda>r. dom r = set (columns df)) (rows df))"

datatype error =
    FileNotFoundError string
  | KeyError string
  | TypeError
  | IndexError
  | MergeError
  | EngineError string

datatype message =
    RunningSimulation string
  | MissingRequiredColumns
  | SkippingModification "(string \<times> val) list"
  | NoLinkFound val val
  | FileUpdated string
  | FileNotFoundMsg string
  | ErrorOccurred error
  | FileInfo string nat "string list"
  | CalculatedDiff string
  | WarningTravelTimeMissing
  | SignificantHeader
  | NoTravelTimeDiff
  | AffectedHeader real
  | ShowFrame frame
  | Stage string
  | CsvSaved

text \<open>
  The world the program runs in: the CSV files by path (relative to the working
  directory of the caller) and the lines printed so far.
\<close>

record world =
  files :: "string \<rightharpoonup> frame"
  out :: "message list"

definition print :: "message list \<Rightarrow> world \<Rightarrow> world" where
  "print ms w = w\<lparr>out := out w @ ms\<rparr>"

definition read_csv :: "world \<Rightarrow> string \<Rightarrow> error + frame" where
  "read_csv w path = (case files w path of None \<Rightarrow> Inl (FileNotFoundError path) | Some df \<Rightarrow> Inr df)"

definition to_csv :: "frame \<Rightarrow> string \<Rightarrow> world \<Rightarrow> world" where
  "to_csv df path w = w\<lparr>files := (files w)(path \<mapsto> df)\<rparr>"

text \<open>\<open>os.path.join\<close> of two components on a POSIX system.\<close>

definition path_join :: "string \<Rightarrow> string \<Rightarrow> string" where
  "path_join a b =
     (if b \<noteq> [] \<and> hd b = CHR ''/'' then b
      else if a = [] \<or> last a = CHR ''/'' then a @ b
      else a @ ''/'' @ b)"

section \<open>Frame operations used by the program\<close>

text \<open>\<open>df[key] = values\<close>: overwrite the column in place, or append it as the last column.\<close>

definition set_column :: "frame \<Rightarrow> string \<Rightarrow> val list \<Rightarrow> frame" where
  "set_column df key vs =
     \<lparr>columns = (if key \<in> set (columns df) then columns df else columns df @ [key]),
      rows = map2 (\<lambda>r v. r(key \<mapsto> v)) (rows df) vs\<rparr>"

text \<open>\<open>df[c] == v\<close>, row by row; a missing value equals nothing, not even itself.\<close>

definition eq_mask :: "frame \<Rightarrow> string \<Rightarrow> val \<Rightarrow> bool list" where
  "eq_mask df c v = map (\<lambda>r. v \<noteq> Null \<and> cell r c = v) (rows df)"

definition and_mask :: "bool list \<Rightarrow> bool list \<Rightarrow> bool list" where
  "and_mask a b = map2 (\<and>) a b"

definition or_mask :: "bool list \<Rightarrow> bool list \<Rightarrow> bool list" where
  "or_mask a b = map2 (\<or>) a b"

text \<open>\<open>mask.sum()\<close>: the number of selected rows.\<close>

definition mask_sum :: "bool list \<Rightarrow> nat" where
  "mask_sum msk = length (filter id msk)"

text \<open>\<open>df.loc[mask, key] = value\<close>: set the cell on the selected rows only.\<close>

definition loc_set :: "frame \<Rightarrow> bool list \<Rightarrow> string \<Rightarrow> val \<Rightarrow> frame" where
  "loc_set df msk key v =
     df\<lparr>rows := map2 (\<lambda>r m. if m then r(key \<mapsto> v) else r) (rows df) msk\<rparr>"

text \<open>\<open>df[mask]\<close>: keep the selected rows, in order.\<close>

definition select_rows :: "frame \<Rightarrow> bool list \<Rightarrow> frame" where
  "select_rows df msk = df\<lparr>rows := map fst (filter snd (zip (rows df) msk))\<rparr>"

text \<open>
  The order \<open>sort_values\<close> puts on the cells of a column: numbers by value, texts by
  code point, missing values last. A column read from CSV holds numbers or texts, never
  both, so the rank between a number and a text is never consulted.
\<close>

fun sort_rank :: "val \<Rightarrow> nat \<times> real \<times> string" where
  "sort_rank (Num x) = (0, x, [])"
| "sort_rank (Str s) = (1, 0, s)"
| "sort_rank Null = (2, 0, [])"

definition val_le :: "val \<Rightarrow> val \<Rightarrow> bool" where
  "val_le a b = (sort_rank a \<le> sort_rank b)"

definition sort_keys :: "string list \<Rightarrow> row \<Rightarrow> (nat \<times> real \<times> string) list" where
  "sort_keys by r = map (\<lambda>c. sort_rank (cell r c)) by"

text \<open>
  \<open>df.sort_values(by=[c1, c2, ...])\<close> on two or more columns, ascending: pandas sorts
  with a lexicographic indexer, which keeps rows with equal keys in their order. The
  insertion sort \<open>sort_key\<close> of the list library computes the same arrangement.
\<close>

definition sort_values :: "frame \<Rightarrow> string list \<Rightarrow> frame" where
  "sort_values df by = df\<lparr>rows := sort_key (sort_keys by) (rows df)\<rparr>"

section \<open>The link editor\<close>

text \<open>
  A modification is a Python dict: its items in insertion order. \<open>mod.get(k)\<close> is the
  value stored under \<open>k\<close>, or None.
\<close>

type_synonym modification = "(string \<times> val) list"

definition dict_get :: "modification \<Rightarrow> string \<Rightarrow> val" where
  "dict_get d k = (case map_of d k of Some v \<Rightarrow> v | None \<Rightarrow> Null)"

text \<open>The inner loop over \<open>mod.items()\<close>: every attribute but the two identifiers is written
  to the rows of the mask; a column the frame lacks is first added, empty, to all rows.\<close>

fun update_attributes :: "frame \<Rightarrow> bool list \<Rightarrow> modification \<Rightarrow> frame" where
  "update_attributes df msk [] = df"
| "update_attributes df msk ((key, v) # items) =
     (if key \<in> {''from_node_id'', ''to_node_id''} then update_attributes df msk items
      else
        let df1 = (if key \<notin> set (columns df)
                   then set_column df key (replicate (length (rows df)) Null)
                   else df)
        in update_attributes (loc_set df1 msk key v) msk items)"

text \<open>One round of the outer loop: the frame after the modification, and what it printed.\<close>

definition apply_modification :: "frame \<Rightarrow> modification \<Rightarrow> frame \<times> message list" where
  "apply_modification df md =
     (let from_node_id = dict_get md ''from_node_id'';
          to_node_id = dict_get md ''to_node_id''
      in if from_node_id = Null \<or> to_node_id = Null then (df, [SkippingModification md])
         else
           let msk = and_mask (eq_mask df ''from_node_id'' from_node_id)
                               (eq_mask df ''to_node_id'' to_node_id)
           in if mask_sum msk = 0 then (df, [NoLinkFound from_node_id to_node_id])
              else (update_attributes df msk md, []))"

fun apply_modifications :: "frame \<Rightarrow> modification list \<Rightarrow> frame \<times> message list" where
  "apply_modifications df [] = (df, [])"
| "apply_modifications df (md # mds) =
     (let (df1, ms1) = apply_modification df md;
          (df2, ms2) = apply_modifications df1 mds
      in (df2, ms1 @ ms2))"

text \<open>\<open>range(1, n + 1)\<close> as a column of numbers.\<close>

definition id_range :: "nat \<Rightarrow> val list" where
  "id_range n = map (\<lambda>i. Num (real i)) [1..<Suc n]"

text \<open>Patch, sort, renumber: the body of the editor between reading and writing the file.\<close>

definition rewrite_links :: "modification list \<Rightarrow> frame \<Rightarrow> frame \<times> message list" where
  "rewrite_links link_modifications links_df =
     (let (df, ms) = apply_modifications links_df link_modifications;
          sorted_links_df = sort_values df [''from_node_id'', ''to_node_id'']
      in (set_column sorted_links_df ''link_id'' (id_range (length (rows sorted_links_df))), ms))"

text \<open>
  \<open>sort_and_rewrite_GMNS_links(link_modifications, file_path)\<close> of change_link_info.py. The
  function returns None on every path: a missing file and missing identifier columns
  are printed, not raised.
\<close>

definition sort_and_rewrite_GMNS_links_at ::
  "modification list \<Rightarrow> string \<Rightarrow> world \<Rightarrow> (error + unit) \<times> world" where
  "sort_and_rewrite_GMNS_links_at link_modifications file_path w =
     (case read_csv w file_path of
        Inl (FileNotFoundError p) \<Rightarrow> (Inr (), print [FileNotFoundMsg file_path] w)
      | Inl e \<Rightarrow> (Inr (), print [ErrorOccurred e] w)
      | Inr links_df \<Rightarrow>
          if ''from_node_id'' \<notin> set (columns links_df) \<or> ''to_node_id'' \<notin> set (columns links_df)
          then (Inr (), print [MissingRequiredColumns] w)
          else
            let (sorted_links_df, ms) = rewrite_links link_modifications links_df
            in (Inr (), print (ms @ [FileUpdated file_path]) (to_csv sorted_links_df file_path w)))"

text \<open>
  \<open>sort_and_rewrite_GMNS_links(link_modifications, network_file, modified_folder)\<close> of
  DTA_sensitivity_analysis.py: the same body, on the file of the folder.
\<close>

definition sort_and_rewrite_GMNS_links ::
  "modification list \<Rightarrow> string \<Rightarrow> string \<Rightarrow> world \<Rightarrow> (error + unit) \<times> world" where
  "sort_and_rewrite_GMNS_links link_modifications network_file modified_folder w =
     sort_and_rewrite_GMNS_links_at link_modifications (path_join modified_folder network_file) w"

text \<open>
  The records a modification selects, in the words of the specification: those whose
  identifier pair equals the pair of the modification. The attributes it names are its
  keys other than the two identifiers.
\<close>

definition mod_matches :: "modification \<Rightarrow> row \<Rightarrow> bool" where
  "mod_matches md r =
     (dict_get md ''from_node_id'' \<noteq> Null \<and> dict_get md ''to_node_id'' \<noteq> Null \<and>
      cell r ''from_node_id'' = dict_get md ''from_node_id'' \<and>
      cell r ''to_node_id'' = dict_get md ''to_node_id'')"

definition mod_attrs :: "modification \<Rightarrow> string set" where
  "mod_attrs md = fst ` set md - {''from_node_id'', ''to_node_id''}"

text \<open>The modifications, file name and folders the script itself runs with.\<close>

definition modifications :: "modification list" where
  "modifications =
     [[(''from_node_id'', Num 1), (''to_node_id'', Num 4), (''lanes'', Num 3), (''free_speed'', Num 70)],
      [(''from_node_id'', Num 3), (''to_node_id'', Num 2), (''free_speed'', Num 50), (''capacity'', Num 1500)]]"

text \<open>A small link table to run the editor on: four links, out of order, with old ids,
  two of them on the same pair of nodes.\<close>

definition example_links :: frame where
  "example_links =
     \<lparr>columns = [''link_id'', ''from_node_id'', ''to_node_id'', ''lanes''],
      rows = [[''link_id'' \<mapsto> Num 7, ''from_node_id'' \<mapsto> Num 3, ''to_node_id'' \<mapsto> Num 2, ''lanes'' \<mapsto> Num 1],
              [''link_id'' \<mapsto> Num 8, ''from_node_id'' \<mapsto> Num 1, ''to_node_id'' \<mapsto> Num 4, ''lanes'' \<mapsto> Num 2],
              [''link_id'' \<mapsto> Num 9, ''from_node_id'' \<mapsto> Num 1, ''to_node_id'' \<mapsto> Num 2, ''lanes'' \<mapsto> Num 2],
              [''link_id'' \<mapsto> Num 5, ''from_node_id'' \<mapsto> Num 1, ''to_node_id'' \<mapsto> Num 4, ''lanes'' \<mapsto> Num 5]]\<rparr>"

definition example_world :: world where
  "example_world = \<lparr>files = [''After/link.csv'' \<mapsto> example_links], out = []\<rparr>"

section \<open>The performance comparators\<close>

text \<open>\<open>df[c]\<close>: the column as a series; a name the frame lacks raises KeyError.\<close>

definition get_column :: "frame \<Rightarrow> string \<Rightarrow> error + val list" where
  "get_column df c =
     (if c \<in> set (columns df) then Inr (map (\<lambda>r. cell r c) (rows df)) else Inl (KeyError c))"

text \<open>\<open>df[cols]\<close>: the frame cut down to the listed columns; the first name the frame lacks
  raises KeyError.\<close>

definition select_columns :: "frame \<Rightarrow> string list \<Rightarrow> error + frame" where
  "select_columns df cols =
     (case filter (\<lambda>c. c \<notin> set (columns df)) cols of
        [] \<Rightarrow> Inr \<lparr>columns = cols, rows = map (\<lambda>r. r |` set cols) (rows df)\<rparr>
      | c # _ \<Rightarrow> Inl (KeyError c))"


text \<open>Subtraction of two cells: a missing operand gives a missing result, a text operand
  raises TypeError (None here).\<close>

fun sub_val :: "val \<Rightarrow> val \<Rightarrow> val option" where
  "sub_val (Num a) (Num b) = Some (Num (a - b))"
| "sub_val (Num a) Null = Some Null"
| "sub_val Null (Num b) = Some Null"
| "sub_val Null Null = Some Null"
| "sub_val (Str s) b = None"
| "sub_val a (Str s) = None"

text \<open>\<open>a - b\<close> on two series, cell by cell.\<close>

definition series_sub :: "val list \<Rightarrow> val list \<Rightarrow> error + val list" where
  "series_sub a b =
     (let ds = map2 sub_val a b
      in if None \<in> set ds then Inl TypeError else Inr (map the ds))"

text \<open>\<open>abs(x) >= threshold\<close> on a cell: a missing value compares false, a text raises
  TypeError (None here).\<close>

fun abs_ge :: "real \<Rightarrow> val \<Rightarrow> bool option" where
  "abs_ge t (Num x) = Some (\<bar>x\<bar> \<ge> t)"
| "abs_ge t Null = Some False"
| "abs_ge t (Str s) = None"

text \<open>\<open>series.abs() >= threshold\<close>.\<close>

definition series_abs_ge :: "val list \<Rightarrow> real \<Rightarrow> error + bool list" where
  "series_abs_ge xs t =
     (let bs = map (abs_ge t) xs
      in if None \<in> set bs then Inl TypeError else Inr (map the bs))"

text \<open>\<open>df[d] = df[a] - df[b]\<close>; the left operand is read first.\<close>

definition diff_column :: "frame \<Rightarrow> string \<Rightarrow> string \<Rightarrow> string \<Rightarrow> error + frame" where
  "diff_column df d a b =
     (case get_column df a of Inl e \<Rightarrow> Inl e | Inr xs \<Rightarrow>
     (case get_column df b of Inl e \<Rightarrow> Inl e | Inr ys \<Rightarrow>
     (case series_sub xs ys of Inl e \<Rightarrow> Inl e | Inr ds \<Rightarrow> Inr (set_column df d ds))))"

text \<open>\<open>df[df[d].abs() >= threshold]\<close>.\<close>

definition abs_ge_mask :: "frame \<Rightarrow> string \<Rightarrow> real \<Rightarrow> error + bool list" where
  "abs_ge_mask df d t =
     (case get_column df d of Inl e \<Rightarrow> Inl e | Inr xs \<Rightarrow> series_abs_ge xs t)"

text \<open>
  \<open>pd.merge(left, right, on=on, suffixes=(lsuf, rsuf))\<close>, an inner join. The key columns
  must exist on both sides and the key list must not be empty. The result has the
  columns of the left frame, then those of the right frame that are not keys; a column
  that is not a key and occurs on both sides is renamed with the suffix of its side; a
  renaming that yields a name twice is refused. There is one row for every pair of a
  left and a right row that agree on all key columns, in the order of the left rows and,
  for one left row, of the right rows. Missing keys match each other. Both sides of a key
  column are taken to hold the same kind of cell, as two outputs of the same engine do.
\<close>

definition left_name :: "string list \<Rightarrow> string list \<Rightarrow> string \<Rightarrow> string \<Rightarrow> string" where
  "left_name on rcols lsuf c = (if c \<notin> set on \<and> c \<in> set rcols then c @ lsuf else c)"

definition right_name :: "string list \<Rightarrow> string \<Rightarrow> string \<Rightarrow> string" where
  "right_name lcols rsuf c = (if c \<in> set lcols then c @ rsuf else c)"

definition keys_agree :: "string list \<Rightarrow> row \<Rightarrow> row \<Rightarrow> bool" where
  "keys_agree on l r = list_all (\<lambda>k. cell l k = cell r k) on"

definition merge_row ::
  "string list \<Rightarrow> string list \<Rightarrow> string list \<Rightarrow> string \<Rightarrow> string \<Rightarrow> row \<Rightarrow> row \<Rightarrow> row" where
  "merge_row on lcols rcols lsuf rsuf l r =
     map_of (map (\<lambda>c. (left_name on rcols lsuf c, cell l c)) lcols @
             map (\<lambda>c. (right_name lcols rsuf c, cell r c)) (filter (\<lambda>c. c \<notin> set on) rcols))"

definition pd_merge :: "frame \<Rightarrow> frame \<Rightarrow> string list \<Rightarrow> string \<Rightarrow> string \<Rightarrow> error + frame" where
  "pd_merge left right on lsuf rsuf =
     (if on = [] then Inl IndexError
      else (case filter (\<lambda>k. k \<notin> set (columns left) \<or> k \<notin> set (columns right)) on of
        k # _ \<Rightarrow> Inl (KeyError k)
      | [] \<Rightarrow>
          let cols = map (left_name on (columns right) lsuf) (columns left) @
                     map (right_name (columns left) rsuf)
                       (filter (\<lambda>c. c \<notin> set on) (columns right))
          in if \<not> distinct cols then Inl MergeError
             else Inr \<lparr>columns = cols,
                       rows = concat (map (\<lambda>l. map (merge_row on (columns left) (columns right) lsuf rsuf l)
                                                  (filter (keys_agree on l) (rows right)))
                                      (rows left))\<rparr>))"

text \<open>The two blocks of \<open>compare_link_performance\<close> that compute the differences: each
  returns the frame and what it printed.\<close>

definition travel_time_diff_step :: "frame \<Rightarrow> error + frame \<times> message list" where
  "travel_time_diff_step merged_df =
     (if ''travel_time_before'' \<in> set (columns merged_df) \<and> ''travel_time_after'' \<in> set (columns merged_df)
      then (case diff_column merged_df ''travel_time_diff'' ''travel_time_after'' ''travel_time_before'' of
              Inl e \<Rightarrow> Inl e
            | Inr df \<Rightarrow> Inr (df, [CalculatedDiff ''travel_time_diff'']))
      else Inr (merged_df, [WarningTravelTimeMissing]))"

definition volume_diff_step :: "frame \<Rightarrow> error + frame \<times> message list" where
  "volume_diff_step merged_df =
     (if ''volume_before'' \<in> set (columns merged_df) \<and> ''volume_after'' \<in> set (columns merged_df)
      then (case diff_column merged_df ''volume_diff'' ''volume_after'' ''volume_before'' of
              Inl e \<Rightarrow> Inl e
            | Inr df \<Rightarrow> Inr (df, [CalculatedDiff ''volume_diff'']))
      else Inr (merged_df, []))"

text \<open>The local \<open>significant_changes\<close> of \<open>compare_link_performance\<close>.\<close>

definition significant_changes :: "frame \<Rightarrow> real \<Rightarrow> error + frame" where
  "significant_changes merged_df threshold =
     (case abs_ge_mask merged_df ''travel_time_diff'' threshold of
        Inl e \<Rightarrow> Inl e
      | Inr msk \<Rightarrow> Inr (select_rows merged_df msk))"

definition link_report_columns :: "string list" where
  "link_report_columns =
     [''travel_time_before'', ''travel_time_after'', ''travel_time_diff'',
      ''volume_before'', ''volume_after'', ''volume_diff'']"

text \<open>The filter block: what it prints, or the error it raises after what it printed.\<close>

definition report_significant :: "frame \<Rightarrow> string list \<Rightarrow> real \<Rightarrow> (error + unit) \<times> message list" where
  "report_significant merged_df key_columns threshold =
     (if ''travel_time_diff'' \<in> set (columns merged_df)
      then (case significant_changes merged_df threshold of
              Inl e \<Rightarrow> (Inl e, [])
            | Inr sig \<Rightarrow>
                (case select_columns sig (key_columns @ link_report_columns) of
                   Inl e \<Rightarrow> (Inl e, [SignificantHeader])
                 | Inr shown \<Rightarrow> (Inr (), [SignificantHeader, ShowFrame shown])))
      else (Inr (), [NoTravelTimeDiff]))"

definition compare_link_performance ::
  "string \<Rightarrow> string \<Rightarrow> string list \<Rightarrow> real \<Rightarrow> world \<Rightarrow> (error + frame) \<times> world" where
  "compare_link_performance baseline_file modified_file key_columns threshold w =
     (case read_csv w baseline_file of Inl e \<Rightarrow> (Inl e, w) | Inr baseline_df \<Rightarrow>
     (case read_csv w modified_file of Inl e \<Rightarrow> (Inl e, w) | Inr modified_df \<Rightarrow>
      let w1 = print [FileInfo baseline_file (length (rows baseline_df)) (columns baseline_df),
                      FileInfo modified_file (length (rows modified_df)) (columns modified_df)] w
      in
     (case pd_merge baseline_df modified_df key_columns ''_before'' ''_after'' of
        Inl e \<Rightarrow> (Inl e, w1)
      | Inr merged_df \<Rightarrow>
     (case travel_time_diff_step merged_df of
        Inl e \<Rightarrow> (Inl e, w1)
      | Inr (merged1, ms1) \<Rightarrow>
     (case volume_diff_step merged1 of
        Inl e \<Rightarrow> (Inl e, print ms1 w1)
      | Inr (merged2, ms2) \<Rightarrow>
     (case report_significant merged2 key_columns threshold of
        (Inl e, ms3) \<Rightarrow> (Inl e, print (ms1 @ ms2 @ ms3) w1)
      | (Inr u, ms3) \<Rightarrow> (Inr merged2, print (ms1 @ ms2 @ ms3) w1)))))))"

definition od_key_columns :: "string list" where
  "od_key_columns = [''mode'', ''o_zone_id'', ''d_zone_id'']"

definition od_report_columns :: "string list" where
  "od_report_columns =
     [''mode'', ''o_zone_id'', ''d_zone_id'',
      ''total_free_flow_travel_time_before'', ''total_free_flow_travel_time_after'', ''free_flow_diff'',
      ''total_congestion_travel_time_before'', ''total_congestion_travel_time_after'', ''congestion_diff'',
      ''volume_before'', ''volume_after'', ''volume_diff'']"

text \<open>The three differences of \<open>detect_affected_OD_pairs\<close>, computed without a check.\<close>

definition od_diffs :: "frame \<Rightarrow> error + frame" where
  "od_diffs merged_df =
     (case diff_column merged_df ''free_flow_diff''
             ''total_free_flow_travel_time_after'' ''total_free_flow_travel_time_before'' of
        Inl e \<Rightarrow> Inl e | Inr df1 \<Rightarrow>
     (case diff_column df1 ''congestion_diff''
             ''total_congestion_travel_time_after'' ''total_congestion_travel_time_before'' of
        Inl e \<Rightarrow> Inl e | Inr df2 \<Rightarrow>
      diff_column df2 ''volume_diff'' ''volume_after'' ''volume_before''))"

text \<open>The local \<open>affected_od\<close>: the rows where one of the three differences reaches the
  threshold.\<close>

definition affected_od :: "frame \<Rightarrow> real \<Rightarrow> error + frame" where
  "affected_od merged_df threshold =
     (case abs_ge_mask merged_df ''free_flow_diff'' threshold of Inl e \<Rightarrow> Inl e | Inr m1 \<Rightarrow>
     (case abs_ge_mask merged_df ''congestion_diff'' threshold of Inl e \<Rightarrow> Inl e | Inr m2 \<Rightarrow>
     (case abs_ge_mask merged_df ''volume_diff'' threshold of Inl e \<Rightarrow> Inl e | Inr m3 \<Rightarrow>
      Inr (select_rows merged_df (or_mask (or_mask m1 m2) m3)))))"

definition detect_affected_OD_pairs ::
  "string \<Rightarrow> string \<Rightarrow> real \<Rightarrow> world \<Rightarrow> (error + frame) \<times> world" where
  "detect_affected_OD_pairs baseline_file modified_file threshold w =
     (case read_csv w baseline_file of Inl e \<Rightarrow> (Inl e, w) | Inr baseline_df \<Rightarrow>
     (case read_csv w modified_file of Inl e \<Rightarrow> (Inl e, w) | Inr modified_df \<Rightarrow>
     (case pd_merge baseline_df modified_df od_key_columns ''_before'' ''_after'' of
        Inl e \<Rightarrow> (Inl e, w) | Inr merged_df \<Rightarrow>
     (case od_diffs merged_df of Inl e \<Rightarrow> (Inl e, w) | Inr merged3 \<Rightarrow>
     (case affected_od merged3 threshold of Inl e \<Rightarrow> (Inl e, w) | Inr affected \<Rightarrow>
     (case select_columns affected od_report_columns of
        Inl e \<Rightarrow> (Inl e, print [AffectedHeader threshold] w)
      | Inr shown \<Rightarrow> (Inr affected, print [AffectedHeader threshold, ShowFrame shown] w)))))))"

section \<open>The pipeline\<close>

text \<open>
  The traffic assignment engine \<open>dta.assignment()\<close> is external: it runs in a folder,
  reads and writes files there, and may fail. It is a parameter of the model: given the
  folder and the files, it returns the files it leaves and whether it raised.
\<close>

type_synonym engine = "string \<Rightarrow> (string \<rightharpoonup> frame) \<Rightarrow> (error + unit) \<times> (string \<rightharpoonup> frame)"

definition run_dtalite_simulation :: "engine \<Rightarrow> string \<Rightarrow> world \<Rightarrow> (error + string) \<times> world" where
  "run_dtalite_simulation dta output_folder w =
     (let w1 = print [RunningSimulation output_folder] w;
          (r, fs) = dta output_folder (files w1);
          w2 = w1\<lparr>files := fs\<rparr>
      in (case r of Inl e \<Rightarrow> (Inl e, w2) | Inr u \<Rightarrow> (Inr output_folder, w2)))"

definition sensitivity_pipeline ::
  "engine \<Rightarrow> string \<Rightarrow> modification list \<Rightarrow> string \<Rightarrow> string \<Rightarrow> string list \<Rightarrow> real \<Rightarrow> world
     \<Rightarrow> (error + frame \<times> frame) \<times> world" where
  "sensitivity_pipeline dta network_file mods baseline_folder modified_folder key_columns threshold w =
     (case run_dtalite_simulation dta baseline_folder (print [Stage ''Running baseline simulation...''] w) of
        (Inl e, w1) \<Rightarrow> (Inl e, w1)
      | (Inr baseline_output, w1) \<Rightarrow>
     (case sort_and_rewrite_GMNS_links mods network_file modified_folder
             (print [Stage ''Applying network modifications...''] w1) of
        (Inl e, w2) \<Rightarrow> (Inl e, w2)
      | (Inr u, w2) \<Rightarrow>
     (case run_dtalite_simulation dta modified_folder (print [Stage ''Running modified simulation...''] w2) of
        (Inl e, w3) \<Rightarrow> (Inl e, w3)
      | (Inr modified_output, w3) \<Rightarrow>
     (case compare_link_performance (baseline_folder @ ''/link_performance.csv'')
             (modified_folder @ ''/link_performance.csv'') key_columns threshold
             (print [Stage ''Comparing link performance...''] w3) of
        (Inl e, w4) \<Rightarrow> (Inl e, w4)
      | (Inr link_diff, w4) \<Rightarrow>
     (case detect_affected_OD_pairs (baseline_folder @ ''/od_performance.csv'')
             (modified_folder @ ''/od_performance.csv'') threshold
             (print [Stage ''Comparing OD performance...''] w4) of
        (Inl e, w5) \<Rightarrow> (Inl e, w5)
      | (Inr od_diff, w5) \<Rightarrow>
     (case select_columns link_diff (key_columns @ link_report_columns) of
        Inl e \<Rightarrow> (Inl e, w5)
      | Inr link_diff_filtered \<Rightarrow>
     (case select_columns od_diff od_report_columns of
        Inl e \<Rightarrow> (Inl e, w5)
      | Inr od_diff_filtered \<Rightarrow>
          (Inr (link_diff, od_diff),
           print [CsvSaved]
             (to_csv od_diff_filtered ''od_performance_comparison.csv''
               (to_csv link_diff_filtered ''link_performance_comparison.csv'' w5))))))))))"

text \<open>A difference reaches the threshold, in the words of the specification: it is a
  number whose absolute value is greater than or equal to the threshold.\<close>

definition meets_threshold :: "real \<Rightarrow> val \<Rightarrow> bool" where
  "meets_threshold t v = (case v of Num x \<Rightarrow> t \<le> \<bar>x\<bar> | _ \<Rightarrow> False)"

text \<open>
  Performance tables to run the comparators on: the link and the OD table of a
  baseline and of a modified run, one record each. Travel time goes from 10 to 12 and
  volume from 100 to 90 on the link.
\<close>

definition example_perf_world :: world where
  "example_perf_world =
     \<lparr>files =
        [''After/link.csv'' \<mapsto> example_links,
         ''Before/link_performance.csv'' \<mapsto>
           \<lparr>columns = [''from_node_id'', ''to_node_id'', ''travel_time'', ''volume''],
            rows = [[''from_node_id'' \<mapsto> Num 1, ''to_node_id'' \<mapsto> Num 4,
                     ''travel_time'' \<mapsto> Num 10, ''volume'' \<mapsto> Num 100]]\<rparr>,
         ''After/link_performance.csv'' \<mapsto>
           \<lparr>columns = [''from_node_id'', ''to_node_id'', ''travel_time'', ''volume''],
            rows = [[''from_node_id'' \<mapsto> Num 1, ''to_node_id'' \<mapsto> Num 4,
                     ''travel_time'' \<mapsto> Num 12, ''volume'' \<mapsto> Num 90]]\<rparr>,
         ''Before/od_performance.csv'' \<mapsto>
           \<lparr>columns = [''mode'', ''o_zone_id'', ''d_zone_id'', ''total_free_flow_travel_time'',
                       ''total_congestion_travel_time'', ''volume''],
            rows = [[''mode'' \<mapsto> Str ''auto'', ''o_zone_id'' \<mapsto> Num 1, ''d_zone_id'' \<mapsto> Num 2,
                     ''total_free_flow_travel_time'' \<mapsto> Num 5,
                     ''total_congestion_travel_time'' \<mapsto> Num 8, ''volume'' \<mapsto> Num 100]]\<rparr>,
         ''After/od_performance.csv'' \<mapsto>
           \<lparr>columns = [''mode'', ''o_zone_id'', ''d_zone_id'', ''total_free_flow_travel_time'',
                       ''total_congestion_travel_time'', ''volume''],
            rows = [[''mode'' \<mapsto> Str ''auto'', ''o_zone_id'' \<mapsto> Num 1, ''d_zone_id'' \<mapsto> Num 2,
                     ''total_free_flow_travel_time'' \<mapsto> Num 5,
                     ''total_congestion_travel_time'' \<mapsto> Num 8, ''volume'' \<mapsto> Num 90]]\<rparr>],
      out = []\<rparr>"



text \<open>The pairs of a baseline and a modified record that agree on the key columns.\<close>

definition matching_pairs :: "string list \<Rightarrow> frame \<Rightarrow> frame \<Rightarrow> (row \<times> row) list" where
  "matching_pairs on b m = filter (\<lambda>(l, r). keys_agree on l r) (List.product (rows b) (rows m))"


text \<open>Link tables of which the modified one carries no \<open>travel_time\<close> column.\<close>

definition example_link_no_travel_time :: world where
  "example_link_no_travel_time =
     \<lparr>files =
        [''Before/link_performance.csv'' \<mapsto>
           \<lparr>columns = [''from_node_id'', ''to_node_id'', ''travel_time'', ''volume''],
            rows = [[''from_node_id'' \<mapsto> Num 1, ''to_node_id'' \<mapsto> Num 4,
                     ''travel_time'' \<mapsto> Num 10, ''volume'' \<mapsto> Num 100]]\<rparr>,
         ''After/link_performance.csv'' \<mapsto>
           \<lparr>columns = [''from_node_id'', ''to_node_id'', ''volume''],
            rows = [[''from_node_id'' \<mapsto> Num 1, ''to_node_id'' \<mapsto> Num 4, ''volume'' \<mapsto> Num 90]]\<rparr>],
      out = []\<rparr>"

text \<open>An engine that fails in the folder \<open>After\<close> and leaves every file as it is.\<close>

definition failing_after :: engine where
  "failing_after folder fs =
     (if folder = ''After'' then (Inl (EngineError ''assignment failed''), fs) else (Inr (), fs))"

section \<open>Lemmas on the frame operations and the patch loop\<close>

lemma cell_upd_same: "cell (r(k \<mapsto> v)) k = v"
  by (simp add: cell_def)

lemma cell_upd_other: "c \<noteq> k \<Longrightarrow> cell (r(k \<mapsto> v)) c = cell r c"
  by (simp add: cell_def)

lemma cell_outside_dom: "c \<notin> dom r \<Longrightarrow> cell r c = Null"
  by (auto simp: cell_def split: option.splits)

lemma rows_set_column_nth:
  "j < length (rows df) \<Longrightarrow> j < length vs \<Longrightarrow>
   rows (set_column df key vs) ! j = (rows df ! j)(key \<mapsto> vs ! j)"
  by (simp add: set_column_def)

lemma length_rows_set_column:
  "length (rows (set_column df key vs)) = min (length (rows df)) (length vs)"
  by (simp add: set_column_def)

lemma columns_set_column:
  "columns (set_column df key vs) = (if key \<in> set (columns df) then columns df else columns df @ [key])"
  by (simp add: set_column_def)

lemma rows_loc_set_nth:
  "j < length (rows df) \<Longrightarrow> j < length msk \<Longrightarrow>
   rows (loc_set df msk key v) ! j = (if msk ! j then (rows df ! j)(key \<mapsto> v) else rows df ! j)"
  by (simp add: loc_set_def)

lemma length_rows_loc_set:
  "length (rows (loc_set df msk key v)) = min (length (rows df)) (length msk)"
  by (simp add: loc_set_def)

lemma columns_loc_set: "columns (loc_set df msk key v) = columns df"
  by (simp add: loc_set_def)

lemma wf_frame_nth: "wf_frame df \<Longrightarrow> j < length (rows df) \<Longrightarrow> dom (rows df ! j) = set (columns df)"
  by (simp add: wf_frame_def list_all_length)

lemma wf_frame_add_column:
  assumes "wf_frame df" "key \<notin> set (columns df)"
  shows "wf_frame (set_column df key (replicate (length (rows df)) Null))"
  using assms
  by (auto simp: wf_frame_def set_column_def list_all_length)

lemma wf_frame_loc_set:
  assumes "wf_frame df" "key \<in> set (columns df)"
  shows "wf_frame (loc_set df msk key v)"
  using assms
  by (auto simp: wf_frame_def loc_set_def list_all_length)

lemma length_rows_update_attributes:
  "length msk = length (rows df) \<Longrightarrow>
   length (rows (update_attributes df msk items)) = length (rows df)"
proof (induction items arbitrary: df)
  case Nil
  then show ?case by simp
next
  case (Cons a items)
  obtain key v where a: "a = (key, v)" by (cases a)
  show ?case using Cons.prems
    by (simp add: a Cons.IH Let_def length_rows_loc_set length_rows_set_column)
qed

lemma wf_frame_update_attributes:
  "wf_frame df \<Longrightarrow> length msk = length (rows df) \<Longrightarrow> wf_frame (update_attributes df msk items)"
proof (induction items arbitrary: df)
  case Nil
  then show ?case by simp
next
  case (Cons a items)
  obtain key v where a: "a = (key, v)" by (cases a)
  show ?case
  proof (cases "key \<in> {''from_node_id'', ''to_node_id''}")
    case True
    then show ?thesis using Cons by (simp add: a)
  next
    case False
    define df1 where "df1 = (if key \<notin> set (columns df)
                   then set_column df key (replicate (length (rows df)) Null) else df)"
    have wf1: "wf_frame df1" and len1: "length (rows df1) = length (rows df)"
      and key1: "key \<in> set (columns df1)"
      using Cons.prems by (auto simp: df1_def wf_frame_add_column length_rows_set_column columns_set_column)
    have "wf_frame (loc_set df1 msk key v)" using wf1 key1 by (rule wf_frame_loc_set)
    moreover have "length msk = length (rows (loc_set df1 msk key v))"
      using Cons.prems len1 by (simp add: length_rows_loc_set)
    ultimately have "wf_frame (update_attributes (loc_set df1 msk key v) msk items)"
      by (rule Cons.IH)
    then show ?thesis using False by (simp add: a df1_def Let_def)
  qed
qed

text \<open>The cell of row j at column c after the inner loop.\<close>

lemma update_attributes_cell:
  assumes "wf_frame df" "length msk = length (rows df)" "j < length (rows df)"
  shows "cell (rows (update_attributes df msk items) ! j) c =
           (if msk ! j \<and> c \<notin> {''from_node_id'', ''to_node_id''} \<and> c \<in> fst ` set items
            then dict_get (rev items) c
            else cell (rows df ! j) c)"
  using assms
proof (induction items arbitrary: df)
  case Nil
  then show ?case by simp
next
  case (Cons a items)
  obtain key v where a: "a = (key, v)" by (cases a)
  show ?case
  proof (cases "key \<in> {''from_node_id'', ''to_node_id''}")
    case True
    have "dict_get (rev items @ [(key, v)]) c = dict_get (rev items) c" if "c \<noteq> key"
      using that by (auto simp: dict_get_def map_add_def split: option.splits)
    then show ?thesis using True Cons by (auto simp: a)
  next
    case False
    define df1 where "df1 = (if key \<notin> set (columns df)
                   then set_column df key (replicate (length (rows df)) Null) else df)"
    define df2 where "df2 = loc_set df1 msk key v"
    have wf1: "wf_frame df1" and len1: "length (rows df1) = length (rows df)"
      and key1: "key \<in> set (columns df1)"
      using Cons.prems by (auto simp: df1_def wf_frame_add_column length_rows_set_column columns_set_column)
    have wf2: "wf_frame df2" unfolding df2_def using wf1 key1 by (rule wf_frame_loc_set)
    have len2: "length (rows df2) = length (rows df)"
      using Cons.prems len1 by (simp add: df2_def length_rows_loc_set)
    have cell1: "cell (rows df1 ! j) c = cell (rows df ! j) c"
    proof (cases "key \<in> set (columns df)")
      case True
      then show ?thesis by (simp add: df1_def)
    next
      case nk: False
      have "key \<notin> dom (rows df ! j)" using nk wf_frame_nth[OF Cons.prems(1) Cons.prems(3)] by simp
      then have "cell (rows df ! j) key = Null" by (rule cell_outside_dom)
      then show ?thesis using nk Cons.prems
        by (cases "c = key") (simp_all add: df1_def rows_set_column_nth cell_upd_same cell_upd_other)
    qed
    have cell2: "cell (rows df2 ! j) c = (if msk ! j \<and> c = key then v else cell (rows df ! j) c)"
      using Cons.prems len1 cell1
      by (simp add: df2_def rows_loc_set_nth cell_upd_same cell_upd_other)
    have IH: "cell (rows (update_attributes df2 msk items) ! j) c =
           (if msk ! j \<and> c \<notin> {''from_node_id'', ''to_node_id''} \<and> c \<in> fst ` set items
            then dict_get (rev items) c
            else cell (rows df2 ! j) c)"
      using Cons.IH[OF wf2] len2 Cons.prems by simp
    have step: "update_attributes df msk (a # items) = update_attributes df2 msk items"
      using False by (simp add: a df1_def df2_def Let_def)
    have dg1: "dict_get (rev items @ [(key, v)]) c = dict_get (rev items) c" if "c \<in> fst ` set items"
    proof -
      from that have "c \<in> dom (map_of (rev items))" by (simp add: dom_map_of_conv_image_fst)
      then show ?thesis by (auto simp: dict_get_def map_add_def split: option.splits)
    qed
    have dg2: "dict_get (rev items @ [(key, v)]) key = v" if "key \<notin> fst ` set items"
    proof -
      from that have "key \<notin> dom (map_of (rev items))" by (simp add: dom_map_of_conv_image_fst)
      then show ?thesis by (auto simp: dict_get_def map_add_def split: option.splits)
    qed
    show ?thesis unfolding step IH cell2 using False dg1 dg2
      by (auto simp: a)
  qed
qed




lemma match_mask_nth:
  assumes "j < length (rows df)"
    and "dict_get md ''from_node_id'' \<noteq> Null" "dict_get md ''to_node_id'' \<noteq> Null"
  shows "and_mask (eq_mask df ''from_node_id'' (dict_get md ''from_node_id''))
                  (eq_mask df ''to_node_id'' (dict_get md ''to_node_id'')) ! j
         = mod_matches md (rows df ! j)"
  using assms by (auto simp: and_mask_def eq_mask_def mod_matches_def)

lemma length_match_mask:
  "length (and_mask (eq_mask df c1 v1) (eq_mask df c2 v2)) = length (rows df)"
  by (simp add: and_mask_def eq_mask_def)

lemma mask_sum_zero: "mask_sum msk = 0 \<longleftrightarrow> (\<forall>j < length msk. \<not> msk ! j)"
  by (auto simp: mask_sum_def filter_empty_conv in_set_conv_nth)

lemma length_rows_apply_modification:
  "length (rows (fst (apply_modification df md))) = length (rows df)"
  by (simp add: apply_modification_def Let_def length_rows_update_attributes length_match_mask)

lemma wf_frame_apply_modification:
  "wf_frame df \<Longrightarrow> wf_frame (fst (apply_modification df md))"
  by (simp add: apply_modification_def Let_def wf_frame_update_attributes length_match_mask)

lemma apply_modification_cell:
  assumes wf: "wf_frame df" and j: "j < length (rows df)"
  shows "cell (rows (fst (apply_modification df md)) ! j) c =
           (if mod_matches md (rows df ! j) \<and> c \<in> mod_attrs md
            then dict_get (rev md) c
            else cell (rows df ! j) c)"
proof (cases "dict_get md ''from_node_id'' = Null \<or> dict_get md ''to_node_id'' = Null")
  case True
  then have "\<not> mod_matches md (rows df ! j)" by (auto simp: mod_matches_def)
  then show ?thesis using True by (simp add: apply_modification_def Let_def)
next
  case False
  define msk where "msk = and_mask (eq_mask df ''from_node_id'' (dict_get md ''from_node_id''))
                  (eq_mask df ''to_node_id'' (dict_get md ''to_node_id''))"
  have len: "length msk = length (rows df)" by (simp add: msk_def length_match_mask)
  have mj: "msk ! j = mod_matches md (rows df ! j)"
    unfolding msk_def using j False by (intro match_mask_nth) auto
  show ?thesis
  proof (cases "mask_sum msk = 0")
    case True
    then have "\<not> msk ! j" using j len by (simp add: mask_sum_zero)
    then show ?thesis using True False mj
      by (simp add: apply_modification_def Let_def msk_def[symmetric])
  next
    case nz: False
    have "fst (apply_modification df md) = update_attributes df msk md"
      using nz False by (simp add: apply_modification_def Let_def msk_def[symmetric])
    then show ?thesis
      using update_attributes_cell[OF wf len j, of md c] mj
      by (auto simp: mod_attrs_def)
  qed
qed


lemma mod_matches_cong:
  "cell r ''from_node_id'' = cell r' ''from_node_id'' \<Longrightarrow>
   cell r ''to_node_id'' = cell r' ''to_node_id'' \<Longrightarrow> mod_matches md r = mod_matches md r'"
  by (simp add: mod_matches_def)

lemma apply_modification_key_cells:
  assumes "wf_frame df" "j < length (rows df)" "c \<in> {''from_node_id'', ''to_node_id''}"
  shows "cell (rows (fst (apply_modification df md)) ! j) c = cell (rows df ! j) c"
  using apply_modification_cell[OF assms(1,2), of md c] assms(3)
  by (auto simp: mod_attrs_def)

lemma length_rows_apply_modifications:
  "length (rows (fst (apply_modifications df mds))) = length (rows df)"
proof (induction mds arbitrary: df)
  case Nil
  then show ?case by simp
next
  case (Cons md mds)
  show ?case using Cons.IH[of "fst (apply_modification df md)"]
    by (simp add: split_beta Let_def length_rows_apply_modification)
qed

lemma wf_frame_apply_modifications:
  "wf_frame df \<Longrightarrow> wf_frame (fst (apply_modifications df mds))"
proof (induction mds arbitrary: df)
  case Nil
  then show ?case by simp
next
  case (Cons md mds)
  show ?case using Cons.IH[of "fst (apply_modification df md)"] Cons.prems
    by (simp add: split_beta Let_def wf_frame_apply_modification)
qed

lemma apply_modifications_cell_frame:
  assumes "wf_frame df" "j < length (rows df)"
    and "\<not> (\<exists>md \<in> set mds. mod_matches md (rows df ! j) \<and> c \<in> mod_attrs md)"
  shows "cell (rows (fst (apply_modifications df mds)) ! j) c = cell (rows df ! j) c"
  using assms
proof (induction mds arbitrary: df)
  case Nil
  then show ?case by simp
next
  case (Cons md mds)
  define df1 where "df1 = fst (apply_modification df md)"
  have wf1: "wf_frame df1" using Cons.prems(1) by (simp add: df1_def wf_frame_apply_modification)
  have j1: "j < length (rows df1)" using Cons.prems(2) by (simp add: df1_def length_rows_apply_modification)
  have keys: "cell (rows df1 ! j) k = cell (rows df ! j) k" if "k \<in> {''from_node_id'', ''to_node_id''}" for k
    unfolding df1_def using Cons.prems(1,2) that by (rule apply_modification_key_cells)
  have mm: "mod_matches m (rows df1 ! j) = mod_matches m (rows df ! j)" for m
    by (rule mod_matches_cong) (simp_all add: keys)
  have c1: "cell (rows df1 ! j) c = cell (rows df ! j) c"
    using apply_modification_cell[OF Cons.prems(1,2), of md c] Cons.prems(3)
    by (auto simp: df1_def)
  have "cell (rows (fst (apply_modifications df1 mds)) ! j) c = cell (rows df1 ! j) c"
    using Cons.IH[OF wf1 j1] Cons.prems(3) mm by simp
  then show ?case using c1 by (simp add: split_beta Let_def df1_def)
qed


section \<open>Lemmas on sorting\<close>

lemma insort_key_map: "insort_key k (f y) (map f ys) = map f (insort_key (\<lambda>x. k (f x)) y ys)"
  by (induction ys) simp_all

lemma sort_key_map: "sort_key k (map f ys) = map f (sort_key (\<lambda>x. k (f x)) ys)"
  by (induction ys) (simp_all add: insort_key_map)

lemma sorted_wrt_from_filters:
  assumes "\<And>c. sorted_wrt (<) (filter (\<lambda>y. kk y = c) zs)"
  shows "sorted_wrt (\<lambda>a b. kk a = kk b \<longrightarrow> a < b) zs"
  using assms
proof (induction zs)
  case Nil
  then show ?case by simp
next
  case (Cons z zs)
  have tail: "sorted_wrt (<) (filter (\<lambda>y. kk y = c) zs)" for c
    using Cons.prems[of c] by (cases "kk z = c") simp_all
  have "z < b" if "b \<in> set zs" "kk z = kk b" for b
    using Cons.prems[of "kk z"] that by auto
  then show ?case using Cons.IH[OF tail] by auto
qed

text \<open>
  A stable sort as a list of positions: \<open>ps ! i\<close> is the place in the input of the element
  at place \<open>i\<close> of the output, every place occurs once, and among equal keys the places
  increase.
\<close>

lemma sort_key_positions:
  fixes k :: "'a \<Rightarrow> 'b::linorder"
  shows "\<exists>ps. mset ps = mset [0..<length xs] \<and> sort_key k xs = map ((!) xs) ps \<and>
              sorted_wrt (\<lambda>a b. k (xs ! a) = k (xs ! b) \<longrightarrow> a < b) ps"
proof -
  define ps where "ps = sort_key (\<lambda>i. k (xs ! i)) [0..<length xs]"
  have "mset ps = mset [0..<length xs]" by (simp add: ps_def)
  moreover have "sort_key k xs = map ((!) xs) ps"
  proof -
    have "sort_key k (map ((!) xs) [0..<length xs]) = map ((!) xs) ps"
      unfolding ps_def by (rule sort_key_map)
    then show ?thesis by (simp add: map_nth)
  qed
  moreover have "sorted_wrt (\<lambda>a b. k (xs ! a) = k (xs ! b) \<longrightarrow> a < b) ps"
  proof (rule sorted_wrt_from_filters)
    fix c
    have "filter (\<lambda>y. k (xs ! y) = c) ps = filter (\<lambda>y. k (xs ! y) = c) [0..<length xs]"
      unfolding ps_def by (rule sort_key_stable)
    then show "sorted_wrt (<) (filter (\<lambda>y. k (xs ! y) = c) ps)"
      by (simp add: sorted_wrt_filter)
  qed
  ultimately show ?thesis by blast
qed

lemma sort_rank_inj: "sort_rank a = sort_rank b \<longleftrightarrow> a = b"
  by (cases a; cases b) simp_all

lemma sort_keys_pair_eq:
  "sort_keys [c1, c2] r = sort_keys [c1, c2] s \<longleftrightarrow> cell r c1 = cell s c1 \<and> cell r c2 = cell s c2"
  by (simp add: sort_keys_def sort_rank_inj)

lemma sort_keys_pair_le:
  "sort_keys [c1, c2] r \<le> sort_keys [c1, c2] s \<Longrightarrow>
   val_le (cell r c1) (cell s c1) \<and> (cell r c1 = cell s c1 \<longrightarrow> val_le (cell r c2) (cell s c2))"
  by (auto simp: sort_keys_def val_le_def)

section \<open>Lemmas on the editor\<close>

lemma length_id_range: "length (id_range n) = n"
  by (simp add: id_range_def)

lemma id_range_nth: "i < n \<Longrightarrow> id_range n ! i = Num (real (Suc i))"
  by (simp add: id_range_def nth_Cons' del: upt_Suc)

lemma rewrite_links_rows:
  "rows (fst (rewrite_links mods df)) =
   map2 (\<lambda>r v. r(''link_id'' \<mapsto> v))
     (sort_key (sort_keys [''from_node_id'', ''to_node_id'']) (rows (fst (apply_modifications df mods))))
     (id_range (length (rows df)))"
  by (simp add: rewrite_links_def split_beta Let_def set_column_def sort_values_def
      length_rows_apply_modifications)

lemma length_rows_rewrite_links: "length (rows (fst (rewrite_links mods df))) = length (rows df)"
  by (simp add: rewrite_links_rows length_id_range length_rows_apply_modifications)

lemma rewrite_links_nth:
  assumes "i < length (rows df)"
  shows "rows (fst (rewrite_links mods df)) ! i =
     (sort_key (sort_keys [''from_node_id'', ''to_node_id''])
        (rows (fst (apply_modifications df mods))) ! i)(''link_id'' \<mapsto> Num (real (Suc i)))"
  using assms
  by (simp add: rewrite_links_rows length_id_range length_rows_apply_modifications id_range_nth)

lemma rewrite_links_link_ids:
  "map (\<lambda>r. cell r ''link_id'') (rows (fst (rewrite_links mods df))) = id_range (length (rows df))"
  by (rule nth_equalityI)
     (simp_all add: length_rows_rewrite_links length_id_range rewrite_links_nth cell_upd_same id_range_nth)

lemma rewrite_links_sorted:
  "sorted (map (sort_keys [''from_node_id'', ''to_node_id'']) (rows (fst (rewrite_links mods df))))"
proof -
  let ?K = "sort_keys [''from_node_id'', ''to_node_id'']"
  let ?S = "sort_key ?K (rows (fst (apply_modifications df mods)))"
  have "map ?K (rows (fst (rewrite_links mods df))) = map ?K ?S"
    by (rule nth_equalityI)
       (simp_all add: length_rows_rewrite_links length_rows_apply_modifications rewrite_links_nth
          sort_keys_def cell_upd_other)
  then show ?thesis by simp
qed

lemma editor_run:
  assumes "files w p = Some df"
    and "''from_node_id'' \<in> set (columns df)" "''to_node_id'' \<in> set (columns df)"
  shows "sort_and_rewrite_GMNS_links_at mods p w =
     (Inr (), print (snd (rewrite_links mods df) @ [FileUpdated p]) (to_csv (fst (rewrite_links mods df)) p w))"
  using assms by (simp add: sort_and_rewrite_GMNS_links_at_def read_csv_def split_beta)

lemma editor_run_file:
  assumes "files w p = Some df"
    and "''from_node_id'' \<in> set (columns df)" "''to_node_id'' \<in> set (columns df)"
  shows "files (snd (sort_and_rewrite_GMNS_links_at mods p w)) p = Some (fst (rewrite_links mods df))"
  by (simp add: editor_run[OF assms] print_def to_csv_def)

section \<open>The link editor: order and numbering of the output\<close>

text \<open>
  Claim C8. A run of the link editor on a file that exists and has both identifier
  columns (either entry point: the one of change_link_info.py on a path, the one of
  DTA_sensitivity_analysis.py on a folder and a file name) returns normally and leaves a
  file with as many records as it read, in which \<open>from_node_id\<close> never decreases from
  one record to a later one, \<open>to_node_id\<close> never decreases among records of equal
  \<open>from_node_id\<close>, and the column \<open>link_id\<close> reads 1, 2, ..., N whatever it held before.
\<close>

theorem link_editor_sorted_and_renumbered:
  assumes "files w p = Some df"
    and "''from_node_id'' \<in> set (columns df)" "''to_node_id'' \<in> set (columns df)"
    and "run = sort_and_rewrite_GMNS_links_at mods p w \<or>
         (p = path_join modified_folder network_file \<and>
          run = sort_and_rewrite_GMNS_links mods network_file modified_folder w)"
  shows "\<exists>df'. fst run = Inr () \<and> files (snd run) p = Some df' \<and>
           length (rows df') = length (rows df) \<and>
           sorted_wrt (\<lambda>r s. val_le (cell r ''from_node_id'') (cell s ''from_node_id'') \<and>
                        (cell r ''from_node_id'' = cell s ''from_node_id'' \<longrightarrow>
                           val_le (cell r ''to_node_id'') (cell s ''to_node_id''))) (rows df') \<and>
           map (\<lambda>r. cell r ''link_id'') (rows df') = map (\<lambda>i. Num (real i)) [1..<Suc (length (rows df))]"
proof -
  let ?K = "sort_keys [''from_node_id'', ''to_node_id'']"
  let ?df' = "fst (rewrite_links mods df)"
  have run: "run = sort_and_rewrite_GMNS_links_at mods p w"
    using assms(4) by (auto simp: sort_and_rewrite_GMNS_links_def)
  have "sorted_wrt (\<lambda>r s. ?K r \<le> ?K s) (rows ?df')"
    using rewrite_links_sorted[of mods df] by (simp add: sorted_map)
  then have srt: "sorted_wrt (\<lambda>r s. val_le (cell r ''from_node_id'') (cell s ''from_node_id'') \<and>
                        (cell r ''from_node_id'' = cell s ''from_node_id'' \<longrightarrow>
                           val_le (cell r ''to_node_id'') (cell s ''to_node_id''))) (rows ?df')"
    by (rule sorted_wrt_mono_rel[rotated]) (rule sort_keys_pair_le)
  have "fst run = Inr ()" by (simp add: run editor_run[OF assms(1-3)])
  moreover have "files (snd run) p = Some ?df'" by (simp add: run editor_run_file[OF assms(1-3)])
  moreover have "length (rows ?df') = length (rows df)" by (rule length_rows_rewrite_links)
  moreover have "map (\<lambda>r. cell r ''link_id'') (rows ?df') = map (\<lambda>i. Num (real i)) [1..<Suc (length (rows df))]"
    by (simp add: rewrite_links_link_ids id_range_def)
  ultimately show ?thesis using srt by blast
qed

theorem link_editor_sorted_and_renumbered_witness:
  "files example_world ''After/link.csv'' = Some example_links \<and>
   ''from_node_id'' \<in> set (columns example_links) \<and> ''to_node_id'' \<in> set (columns example_links) \<and>
   ''After/link.csv'' = path_join ''After'' ''link.csv'' \<and>
   (\<exists>df'. fst (sort_and_rewrite_GMNS_links modifications ''link.csv'' ''After'' example_world) = Inr () \<and>
      files (snd (sort_and_rewrite_GMNS_links modifications ''link.csv'' ''After'' example_world))
        ''After/link.csv'' = Some df' \<and>
      length (rows df') = 4 \<and>
      sorted_wrt (\<lambda>r s. val_le (cell r ''from_node_id'') (cell s ''from_node_id'') \<and>
                        (cell r ''from_node_id'' = cell s ''from_node_id'' \<longrightarrow>
                           val_le (cell r ''to_node_id'') (cell s ''to_node_id''))) (rows df') \<and>
      map (\<lambda>r. cell r ''link_id'') (rows df') = [Num 1, Num 2, Num 3, Num 4])"
proof -
  have h1: "files example_world ''After/link.csv'' = Some example_links"
    by (simp add: example_world_def)
  have h2: "''from_node_id'' \<in> set (columns example_links)"
    and h3: "''to_node_id'' \<in> set (columns example_links)"
    by (simp_all add: example_links_def)
  have h4: "''After/link.csv'' = path_join ''After'' ''link.csv''"
    by (simp add: path_join_def)
  have n: "length (rows example_links) = 4" by (simp add: example_links_def)
  have r: "map (\<lambda>i. Num (real i)) [1..<Suc 4] = [Num 1, Num 2, Num 3, Num 4]"
    by (simp add: upt_rec)
  show ?thesis
    using link_editor_sorted_and_renumbered[OF h1 h2 h3, of
        "sort_and_rewrite_GMNS_links modifications ''link.csv'' ''After'' example_world"
        modifications "''After''" "''link.csv''"] h1 h2 h3 h4
    unfolding n r by simp
qed

section \<open>The link editor: which input record each output record is\<close>

text \<open>
  The output of patch, sort and renumber, read through the list of positions of the
  sort: record \<open>i\<close> of the output is the patched record \<open>ps ! i\<close> of the input with its
  new \<open>link_id\<close>; every input position occurs once; of two output records with the same
  identifier pair, the earlier one comes from the earlier input position.
\<close>

lemma rewrite_links_positions:
  "\<exists>ps. mset ps = mset [0..<length (rows df)] \<and>
     (\<forall>i < length (rows df).
        rows (fst (rewrite_links mods df)) ! i =
          (rows (fst (apply_modifications df mods)) ! (ps ! i))(''link_id'' \<mapsto> Num (real (Suc i)))) \<and>
     (\<forall>i j. i < j \<and> j < length (rows df) \<and>
        cell (rows (fst (rewrite_links mods df)) ! i) ''from_node_id'' =
          cell (rows (fst (rewrite_links mods df)) ! j) ''from_node_id'' \<and>
        cell (rows (fst (rewrite_links mods df)) ! i) ''to_node_id'' =
          cell (rows (fst (rewrite_links mods df)) ! j) ''to_node_id''
        \<longrightarrow> ps ! i < ps ! j)"
proof -
  let ?K = "sort_keys [''from_node_id'', ''to_node_id'']"
  let ?xs = "rows (fst (apply_modifications df mods))"
  let ?out = "rows (fst (rewrite_links mods df))"
  have n: "length ?xs = length (rows df)" by (rule length_rows_apply_modifications)
  obtain ps where ps: "mset ps = mset [0..<length ?xs]"
    and srt: "sort_key ?K ?xs = map ((!) ?xs) ps"
    and stable: "sorted_wrt (\<lambda>a b. ?K (?xs ! a) = ?K (?xs ! b) \<longrightarrow> a < b) ps"
    using sort_key_positions[where k = ?K and xs = ?xs] by blast
  have lps: "length ps = length (rows df)"
    using ps n by (metis length_upt minus_nat.diff_0 size_mset)
  have out: "?out ! i = (?xs ! (ps ! i))(''link_id'' \<mapsto> Num (real (Suc i)))"
    if "i < length (rows df)" for i
    using that lps by (simp add: rewrite_links_nth srt)
  have "ps ! i < ps ! j"
    if "i < j" "j < length (rows df)"
      "cell (?out ! i) ''from_node_id'' = cell (?out ! j) ''from_node_id''"
      "cell (?out ! i) ''to_node_id'' = cell (?out ! j) ''to_node_id''" for i j
  proof -
    have "?K (?xs ! (ps ! i)) = ?K (?xs ! (ps ! j))"
      using that out[of i] out[of j] by (simp add: sort_keys_pair_eq cell_upd_other)
    moreover have "?K (?xs ! (ps ! i)) = ?K (?xs ! (ps ! j)) \<longrightarrow> ps ! i < ps ! j"
      using sorted_wrt_nth_less[OF stable, of i j] that lps by simp
    ultimately show ?thesis by simp
  qed
  then show ?thesis using ps n out by (intro exI[of _ ps]) auto
qed

lemma positions_in_range:
  assumes "mset ps = mset [0..<n]" "i < n"
  shows "length ps = n" "ps ! i < n"
proof -
  show l: "length ps = n" using assms(1) by (metis length_upt minus_nat.diff_0 size_mset)
  have "ps ! i \<in> set ps" using assms(2) l by simp
  then have "ps ! i \<in> set [0..<n]" using assms(1) by (metis set_mset_mset)
  then show "ps ! i < n" by simp
qed


text \<open>
  Claim C10. The link editor neither creates nor deletes records. The output file has
  as many records as the input, and through a list \<open>ps\<close> holding every input position
  once, output record \<open>i\<close> is input record \<open>ps ! i\<close>: it reads the same at every
  column other than \<open>link_id\<close> and the attributes named by a modification that selects
  the record. A column that the record did not carry reads as missing.
\<close>

theorem link_editor_keeps_records:
  assumes "files w p = Some df" and "wf_frame df"
    and "''from_node_id'' \<in> set (columns df)" "''to_node_id'' \<in> set (columns df)"
    and "run = sort_and_rewrite_GMNS_links_at mods p w \<or>
         (p = path_join modified_folder network_file \<and>
          run = sort_and_rewrite_GMNS_links mods network_file modified_folder w)"
  shows "\<exists>df' ps. files (snd run) p = Some df' \<and> length (rows df') = length (rows df) \<and>
           mset ps = mset [0..<length (rows df)] \<and>
           (\<forall>i < length (rows df). \<forall>c.
              c \<noteq> ''link_id'' \<and>
              \<not> (\<exists>md \<in> set mods. mod_matches md (rows df ! (ps ! i)) \<and> c \<in> mod_attrs md)
              \<longrightarrow> cell (rows df' ! i) c = cell (rows df ! (ps ! i)) c)"
proof -
  let ?df' = "fst (rewrite_links mods df)"
  let ?xs = "rows (fst (apply_modifications df mods))"
  have run: "run = sort_and_rewrite_GMNS_links_at mods p w"
    using assms(5) by (auto simp: sort_and_rewrite_GMNS_links_def)
  have written: "files (snd run) p = Some ?df'"
    by (simp add: run editor_run_file[OF assms(1,3,4)])
  obtain ps where ps: "mset ps = mset [0..<length (rows df)]"
    and out: "\<forall>i < length (rows df).
        rows ?df' ! i = (?xs ! (ps ! i))(''link_id'' \<mapsto> Num (real (Suc i)))"
    using rewrite_links_positions[of df mods] by blast
  have same: "cell (rows ?df' ! i) c = cell (rows df ! (ps ! i)) c"
    if "i < length (rows df)" "c \<noteq> ''link_id''"
      "\<not> (\<exists>md \<in> set mods. mod_matches md (rows df ! (ps ! i)) \<and> c \<in> mod_attrs md)" for i c
  proof -
    have pi: "ps ! i < length (rows df)" using ps that(1) by (rule positions_in_range)
    have "cell (rows ?df' ! i) c = cell (?xs ! (ps ! i)) c"
      using out that(1,2) by (simp add: cell_upd_other)
    also have "\<dots> = cell (rows df ! (ps ! i)) c"
      using assms(2) pi that(3) by (rule apply_modifications_cell_frame)
    finally show ?thesis .
  qed
  show ?thesis
    using written ps same length_rows_rewrite_links[of mods df]
    by (intro exI[of _ ?df'] exI[of _ ps]) simp
qed

lemma wf_example_links: "wf_frame example_links"
  by (auto simp: wf_frame_def example_links_def)


theorem link_editor_keeps_records_witness:
  "files example_world ''After/link.csv'' = Some example_links \<and> wf_frame example_links \<and>
   ''from_node_id'' \<in> set (columns example_links) \<and> ''to_node_id'' \<in> set (columns example_links) \<and>
   ''After/link.csv'' = path_join ''After'' ''link.csv'' \<and>
   (\<exists>df' ps.
      files (snd (sort_and_rewrite_GMNS_links modifications ''link.csv'' ''After'' example_world))
        ''After/link.csv'' = Some df' \<and>
      length (rows df') = 4 \<and> mset ps = mset [0..<4] \<and>
      (\<forall>i < 4. \<forall>c.
         c \<noteq> ''link_id'' \<and>
         \<not> (\<exists>md \<in> set modifications. mod_matches md (rows example_links ! (ps ! i)) \<and> c \<in> mod_attrs md)
         \<longrightarrow> cell (rows df' ! i) c = cell (rows example_links ! (ps ! i)) c))"
proof -
  have h1: "files example_world ''After/link.csv'' = Some example_links"
    by (simp add: example_world_def)
  have h2: "''from_node_id'' \<in> set (columns example_links)"
    and h3: "''to_node_id'' \<in> set (columns example_links)"
    by (simp_all add: example_links_def)
  have h4: "''After/link.csv'' = path_join ''After'' ''link.csv''"
    by (simp add: path_join_def)
  have n: "length (rows example_links) = 4" by (simp add: example_links_def)
  show ?thesis
    using link_editor_keeps_records[OF h1 wf_example_links h2 h3, of
        "sort_and_rewrite_GMNS_links modifications ''link.csv'' ''After'' example_world"
        modifications "''After''" "''link.csv''"] h1 h2 h3 h4 wf_example_links
    unfolding n by simp
qed

text \<open>The example, run: the sorted file with its patched attributes.\<close>

lemma example_run_rows:
  "map (\<lambda>r. (cell r ''link_id'', cell r ''from_node_id'', cell r ''to_node_id'', cell r ''lanes'',
              cell r ''free_speed'', cell r ''capacity''))
     (rows (fst (rewrite_links modifications example_links))) =
   [(Num 1, Num 1, Num 2, Num 2, Null, Null),
    (Num 2, Num 1, Num 4, Num 3, Num 70, Null),
    (Num 3, Num 1, Num 4, Num 3, Num 70, Null),
    (Num 4, Num 3, Num 2, Num 1, Num 50, Num 1500)]"
  by (simp add: rewrite_links_def modifications_def example_links_def apply_modification_def Let_def
     dict_get_def and_mask_def eq_mask_def cell_def mask_sum_def set_column_def loc_set_def
     sort_values_def sort_keys_def id_range_def upt_rec)

section \<open>The link editor: what a modification touches\<close>



section \<open>The link editor: a table without the identifier columns\<close>

text \<open>
  Claim C4 asks that a link table lacking \<open>from_node_id\<close> or \<open>to_node_id\<close> makes the
  editor fail with an error signalled to its caller. The editor prints a line and
  returns as it does after a successful run, so the caller sees no error: here on a file
  with no \<open>to_node_id\<close> column.
\<close>

theorem missing_key_column_counterexample:
  "fst (sort_and_rewrite_GMNS_links modifications ''link.csv'' ''After''
        \<lparr>files = [''After/link.csv'' \<mapsto>
            \<lparr>columns = [''link_id'', ''from_node_id''],
             rows = [[''link_id'' \<mapsto> Num 1, ''from_node_id'' \<mapsto> Num 3]]\<rparr>],
         out = []\<rparr>) = Inr ()"
  by (simp add: sort_and_rewrite_GMNS_links_def sort_and_rewrite_GMNS_links_at_def path_join_def
      read_csv_def)

text \<open>
  Claim C4, amended. When the link table lacks \<open>from_node_id\<close> or \<open>to_node_id\<close>, the editor
  (either entry point) prints that the required columns are missing and returns
  normally, with no error for the caller; it writes nothing, so every file is as it was.
\<close>

theorem missing_key_column_reported_not_raised:
  assumes "files w p = Some df"
    and "''from_node_id'' \<notin> set (columns df) \<or> ''to_node_id'' \<notin> set (columns df)"
    and "run = sort_and_rewrite_GMNS_links_at mods p w \<or>
         (p = path_join modified_folder network_file \<and>
          run = sort_and_rewrite_GMNS_links mods network_file modified_folder w)"
  shows "fst run = Inr () \<and> files (snd run) = files w \<and>
         out (snd run) = out w @ [MissingRequiredColumns]"
proof -
  have run: "run = sort_and_rewrite_GMNS_links_at mods p w"
    using assms(3) by (auto simp: sort_and_rewrite_GMNS_links_def)
  show ?thesis using assms(1,2)
    by (auto simp: run sort_and_rewrite_GMNS_links_at_def read_csv_def print_def)
qed

theorem missing_key_column_reported_not_raised_witness:
  "files \<lparr>files = [''After/link.csv'' \<mapsto>
            \<lparr>columns = [''link_id'', ''from_node_id''],
             rows = [[''link_id'' \<mapsto> Num 1, ''from_node_id'' \<mapsto> Num 3]]\<rparr>],
         out = []\<rparr> ''After/link.csv'' =
     Some \<lparr>columns = [''link_id'', ''from_node_id''],
             rows = [[''link_id'' \<mapsto> Num 1, ''from_node_id'' \<mapsto> Num 3]]\<rparr> \<and>
   ''to_node_id'' \<notin> set [''link_id'', ''from_node_id''] \<and>
   ''After/link.csv'' = path_join ''After'' ''link.csv'' \<and>
   out (snd (sort_and_rewrite_GMNS_links modifications ''link.csv'' ''After''
        \<lparr>files = [''After/link.csv'' \<mapsto>
            \<lparr>columns = [''link_id'', ''from_node_id''],
             rows = [[''link_id'' \<mapsto> Num 1, ''from_node_id'' \<mapsto> Num 3]]\<rparr>],
         out = []\<rparr>)) = [MissingRequiredColumns]"
proof -
  let ?df = "\<lparr>columns = [''link_id'', ''from_node_id''],
             rows = [[''link_id'' \<mapsto> Num 1, ''from_node_id'' \<mapsto> Num (3::real)]]\<rparr>"
  let ?w = "\<lparr>files = [''After/link.csv'' \<mapsto> ?df], out = []\<rparr>"
  have h1: "files ?w ''After/link.csv'' = Some ?df" by simp
  have h2: "''from_node_id'' \<notin> set (columns ?df) \<or> ''to_node_id'' \<notin> set (columns ?df)" by simp
  have h4: "''After/link.csv'' = path_join ''After'' ''link.csv''"
    by (simp add: path_join_def)
  show ?thesis
    using missing_key_column_reported_not_raised[OF h1 h2, of
        "sort_and_rewrite_GMNS_links modifications ''link.csv'' ''After'' ?w"
        modifications "''After''" "''link.csv''"] h4
    by simp
qed

section \<open>Lemmas on series, masks and column selection\<close>

lemma get_column_Inr:
  "get_column df c = Inr xs \<longleftrightarrow> c \<in> set (columns df) \<and> xs = map (\<lambda>r. cell r c) (rows df)"
  by (auto simp: get_column_def)

lemma get_column_Inl:
  "get_column df c = Inl e \<longleftrightarrow> c \<notin> set (columns df) \<and> e = KeyError c"
  by (auto simp: get_column_def)

lemma series_sub_Inr:
  assumes "series_sub (map f rs) (map g rs) = Inr ds"
  shows "ds = map (\<lambda>r. the (sub_val (f r) (g r))) rs"
    and "\<forall>r \<in> set rs. sub_val (f r) (g r) = Some (the (sub_val (f r) (g r)))"
proof -
  have z: "map2 sub_val (map f rs) (map g rs) = map (\<lambda>r. sub_val (f r) (g r)) rs"
    by (induction rs) simp_all
  from assms have nn: "None \<notin> set (map (\<lambda>r. sub_val (f r) (g r)) rs)"
    and ds: "ds = map the (map (\<lambda>r. sub_val (f r) (g r)) rs)"
    by (auto simp: series_sub_def Let_def z split: if_splits)
  show "ds = map (\<lambda>r. the (sub_val (f r) (g r))) rs" using ds by simp
  show "\<forall>r \<in> set rs. sub_val (f r) (g r) = Some (the (sub_val (f r) (g r)))"
  proof
    fix r assume "r \<in> set rs"
    then have "sub_val (f r) (g r) \<noteq> None" using nn by force
    then show "sub_val (f r) (g r) = Some (the (sub_val (f r) (g r)))" by simp
  qed
qed


lemma abs_ge_meets: "abs_ge t v = Some b \<Longrightarrow> b = meets_threshold t v"
  by (cases v) (auto simp: meets_threshold_def)

lemma sub_val_not_text: "sub_val a b = Some v \<Longrightarrow> abs_ge t v \<noteq> None"
  by (cases a; cases b) auto

lemma series_abs_ge_Inr:
  assumes "series_abs_ge (map f rs) t = Inr bs"
  shows "bs = map (\<lambda>r. meets_threshold t (f r)) rs"
proof -
  from assms have nn: "None \<notin> set (map (\<lambda>r. abs_ge t (f r)) rs)"
    and bs: "bs = map (\<lambda>r. the (abs_ge t (f r))) rs"
    by (auto simp: series_abs_ge_def Let_def comp_def split: if_splits)
  have "the (abs_ge t (f r)) = meets_threshold t (f r)" if "r \<in> set rs" for r
  proof -
    from that nn have "abs_ge t (f r) \<noteq> None" by force
    then obtain b where "abs_ge t (f r) = Some b" by auto
    then show ?thesis using abs_ge_meets by fastforce
  qed
  then show ?thesis using bs by simp
qed

lemma abs_ge_mask_Inr:
  assumes "abs_ge_mask df d t = Inr msk"
  shows "msk = map (\<lambda>r. meets_threshold t (cell r d)) (rows df)"
  using assms
  by (auto simp: abs_ge_mask_def get_column_def split: if_splits intro: series_abs_ge_Inr)

lemma select_rows_map: "rows (select_rows df (map P (rows df))) = filter P (rows df)"
proof -
  have "map fst (filter snd (zip xs (map P xs))) = filter P xs" for xs :: "row list"
    by (induction xs) simp_all
  then show ?thesis by (simp add: select_rows_def)
qed

lemma columns_select_rows: "columns (select_rows df msk) = columns df"
  by (simp add: select_rows_def)

lemma or_mask_map: "or_mask (map P xs) (map Q xs) = map (\<lambda>x. P x \<or> Q x) xs"
  by (induction xs) (simp_all add: or_mask_def)

lemma diff_column_Inr:
  assumes "diff_column df d a b = Inr df'"
  shows "rows df' = map (\<lambda>r. r(d \<mapsto> the (sub_val (cell r a) (cell r b)))) (rows df)"
    and "\<forall>r \<in> set (rows df). sub_val (cell r a) (cell r b) = Some (the (sub_val (cell r a) (cell r b)))"
    and "columns df' = (if d \<in> set (columns df) then columns df else columns df @ [d])"
    and "a \<in> set (columns df)" "b \<in> set (columns df)"
proof -
  from assms obtain ds where a: "a \<in> set (columns df)" and b: "b \<in> set (columns df)"
    and ss: "series_sub (map (\<lambda>r. cell r a) (rows df)) (map (\<lambda>r. cell r b) (rows df)) = Inr ds"
    and df': "df' = set_column df d ds"
    by (auto simp: diff_column_def get_column_def split: if_splits sum.splits)
  note s = series_sub_Inr[OF ss]
  show "a \<in> set (columns df)" "b \<in> set (columns df)" by fact+
  show "\<forall>r \<in> set (rows df). sub_val (cell r a) (cell r b) = Some (the (sub_val (cell r a) (cell r b)))"
    by (rule s(2))
  show "columns df' = (if d \<in> set (columns df) then columns df else columns df @ [d])"
    by (simp add: df' set_column_def)
  have "map2 (\<lambda>r v. r(d \<mapsto> v)) rs (map h rs) = map (\<lambda>r. r(d \<mapsto> h r)) rs" for rs :: "row list" and h
    by (induction rs) simp_all
  then show "rows df' = map (\<lambda>r. r(d \<mapsto> the (sub_val (cell r a) (cell r b)))) (rows df)"
    by (simp add: df' set_column_def s(1))
qed

lemma diff_column_Inl:
  assumes "a \<notin> set (columns df) \<or> b \<notin> set (columns df)"
  shows "\<exists>c. diff_column df d a b = Inl (KeyError c)"
  using assms by (auto simp: diff_column_def get_column_def)


lemma select_columns_Inr:
  "select_columns df cols = Inr df' \<longleftrightarrow>
     set cols \<subseteq> set (columns df) \<and> df' = \<lparr>columns = cols, rows = map (\<lambda>r. r |` set cols) (rows df)\<rparr>"
proof (cases "filter (\<lambda>c. c \<notin> set (columns df)) cols")
  case Nil
  then have "set cols \<subseteq> set (columns df)" by (auto simp: filter_empty_conv)
  then show ?thesis using Nil by (auto simp: select_columns_def)
next
  case (Cons c cs)
  then have "c \<in> set (filter (\<lambda>c. c \<notin> set (columns df)) cols)" by simp
  then have "\<not> set cols \<subseteq> set (columns df)" by auto
  then show ?thesis using Cons by (simp add: select_columns_def)
qed

lemma cell_restrict: "c \<in> S \<Longrightarrow> cell (r |` S) c = cell r c"
  by (simp add: cell_def)

section \<open>Lemmas on the comparators\<close>


lemma affected_od_rows:
  assumes "affected_od merged t = Inr aff"
  shows "rows aff = filter (\<lambda>r. meets_threshold t (cell r ''free_flow_diff'') \<or>
                              meets_threshold t (cell r ''congestion_diff'') \<or>
                              meets_threshold t (cell r ''volume_diff'')) (rows merged)"
    and "columns aff = columns merged"
proof -
  from assms obtain m1 m2 m3 where m1: "abs_ge_mask merged ''free_flow_diff'' t = Inr m1"
    and m2: "abs_ge_mask merged ''congestion_diff'' t = Inr m2"
    and m3: "abs_ge_mask merged ''volume_diff'' t = Inr m3"
    and aff: "aff = select_rows merged (or_mask (or_mask m1 m2) m3)"
    by (auto simp: affected_od_def split: sum.splits)
  show "rows aff = filter (\<lambda>r. meets_threshold t (cell r ''free_flow_diff'') \<or>
                              meets_threshold t (cell r ''congestion_diff'') \<or>
                              meets_threshold t (cell r ''volume_diff'')) (rows merged)"
    unfolding aff abs_ge_mask_Inr[OF m1] abs_ge_mask_Inr[OF m2] abs_ge_mask_Inr[OF m3] or_mask_map
    by (simp add: select_rows_map)
  show "columns aff = columns merged" by (simp add: aff columns_select_rows)
qed

lemma compare_link_performance_Inr:
  assumes "compare_link_performance bf mf keys t w = (Inr result, w')"
  shows "\<exists>b m joined merged1 ms1 ms2 ms3.
           read_csv w bf = Inr b \<and> read_csv w mf = Inr m \<and>
           pd_merge b m keys ''_before'' ''_after'' = Inr joined \<and>
           travel_time_diff_step joined = Inr (merged1, ms1) \<and>
           volume_diff_step merged1 = Inr (result, ms2) \<and>
           report_significant result keys t = (Inr (), ms3) \<and>
           w' = print (ms1 @ ms2 @ ms3)
                  (print [FileInfo bf (length (rows b)) (columns b),
                          FileInfo mf (length (rows m)) (columns m)] w)"
  using assms unfolding compare_link_performance_def Let_def
  by (auto split: sum.splits prod.splits)

lemma detect_affected_OD_pairs_Inr:
  assumes "detect_affected_OD_pairs bf mf t w = (Inr aff, w')"
  shows "\<exists>b m joined merged shown.
           read_csv w bf = Inr b \<and> read_csv w mf = Inr m \<and>
           pd_merge b m od_key_columns ''_before'' ''_after'' = Inr joined \<and>
           od_diffs joined = Inr merged \<and> affected_od merged t = Inr aff \<and>
           select_columns aff od_report_columns = Inr shown \<and>
           w' = print [AffectedHeader t, ShowFrame shown] w"
  using assms unfolding detect_affected_OD_pairs_def
  by (auto split: sum.splits)


section \<open>The threshold filter of the two comparators\<close>



lemma run_is_Inr: "\<not> isl (fst run) \<Longrightarrow> run = (Inr (projr (fst run)), snd run)"
  by (cases run; cases "fst run") simp_all


section \<open>Lemmas on the join\<close>


lemma pd_merge_Inr:
  assumes "pd_merge b m on ls rs = Inr j"
  shows "on \<noteq> []" "set on \<subseteq> set (columns b)" "set on \<subseteq> set (columns m)"
    and "columns j = map (left_name on (columns m) ls) (columns b) @
                     map (right_name (columns b) rs) (filter (\<lambda>c. c \<notin> set on) (columns m))"
    and "distinct (columns j)"
    and "rows j = concat (map (\<lambda>l. map (merge_row on (columns b) (columns m) ls rs l)
                                      (filter (keys_agree on l) (rows m))) (rows b))"
proof -
  from assms show "on \<noteq> []" by (auto simp: pd_merge_def split: if_splits)
  from assms have nil: "filter (\<lambda>k. k \<notin> set (columns b) \<or> k \<notin> set (columns m)) on = []"
    by (auto simp: pd_merge_def split: if_splits list.splits)
  then show "set on \<subseteq> set (columns b)" "set on \<subseteq> set (columns m)"
    by (auto simp: filter_empty_conv)
  from assms nil show "columns j = map (left_name on (columns m) ls) (columns b) @
                     map (right_name (columns b) rs) (filter (\<lambda>c. c \<notin> set on) (columns m))"
    and "distinct (columns j)"
    and "rows j = concat (map (\<lambda>l. map (merge_row on (columns b) (columns m) ls rs l)
                                      (filter (keys_agree on l) (rows m))) (rows b))"
    by (auto simp: pd_merge_def Let_def split: if_splits)
qed


lemma length_concat_filter_product:
  "length (concat (map (\<lambda>l. map (f l) (filter (P l) ys)) xs)) =
   length (filter (\<lambda>(l, r). P l r) (List.product xs ys))"
proof (induction xs)
  case Nil
  then show ?case by simp
next
  case (Cons x xs)
  have "length (filter (\<lambda>(l, r). P l r) (map (Pair x) ys)) = length (filter (P x) ys)"
    by (induction ys) simp_all
  then show ?case using Cons by simp
qed

lemma pd_merge_length:
  assumes "pd_merge b m on ls rs = Inr j"
  shows "length (rows j) = length (matching_pairs on b m)"
  unfolding pd_merge_Inr(6)[OF assms] matching_pairs_def
  by (rule length_concat_filter_product)






lemma diff_column_length:
  assumes "diff_column df d a b = Inr df'"
  shows "length (rows df') = length (rows df)"
  unfolding diff_column_Inr(1)[OF assms] by simp


section \<open>Lemmas on the difference columns of the comparators\<close>


lemma link_steps_length:
  assumes tt: "travel_time_diff_step joined = Inr (m1, ms1)"
    and vol: "volume_diff_step m1 = Inr (res, ms2)"
  shows "length (rows res) = length (rows joined)"
proof -
  have "length (rows m1) = length (rows joined)"
    using tt by (auto simp: travel_time_diff_step_def diff_column_length split: if_splits sum.splits)
  moreover have "length (rows res) = length (rows m1)"
    using vol by (auto simp: volume_diff_step_def diff_column_length split: if_splits sum.splits)
  ultimately show ?thesis by simp
qed


section \<open>The comparison output is the inner join with its differences\<close>




lemma link_comparison_length:
  assumes run: "compare_link_performance bf mf keys t w = (Inr result, w')"
    and b: "read_csv w bf = Inr b" and m: "read_csv w mf = Inr m"
  shows "length (rows result) = length (matching_pairs keys b m)"
proof -
  from compare_link_performance_Inr[OF run] b m obtain joined m1 ms1 ms2
    where j: "pd_merge b m keys ''_before'' ''_after'' = Inr joined"
      and tt: "travel_time_diff_step joined = Inr (m1, ms1)"
      and vol: "volume_diff_step m1 = Inr (result, ms2)"
    by auto
  show ?thesis using link_steps_length[OF tt vol] pd_merge_length[OF j] by simp
qed








section \<open>A metric column that one of the tables lacks\<close>









section \<open>A metric column absent from an input of a comparator\<close>





section \<open>Lemmas on the pipeline\<close>

lemma editor_never_raises: "fst (sort_and_rewrite_GMNS_links mods nf folder w) = Inr ()"
  by (auto simp: sort_and_rewrite_GMNS_links_def sort_and_rewrite_GMNS_links_at_def split_beta
      split: sum.splits error.splits)

lemma editor_missing_file:
  assumes "files w (path_join folder nf) = None"
  shows "sort_and_rewrite_GMNS_links mods nf folder w =
           (Inr (), print [FileNotFoundMsg (path_join folder nf)] w)"
  using assms
  by (simp add: sort_and_rewrite_GMNS_links_def sort_and_rewrite_GMNS_links_at_def read_csv_def)

lemma files_print: "files (print ms w) = files w"
  by (simp add: print_def)

lemma compare_link_performance_files:
  "files (snd (compare_link_performance bf mf keys t w)) = files w"
  unfolding compare_link_performance_def Let_def
  by (auto simp: files_print split: sum.splits prod.splits)

lemma detect_affected_OD_pairs_files:
  "files (snd (detect_affected_OD_pairs bf mf t w)) = files w"
  unfolding detect_affected_OD_pairs_def
  by (auto simp: files_print split: sum.splits)

lemma run_dtalite_simulation_files:
  "files (snd (run_dtalite_simulation dta folder w)) = snd (dta folder (files w))"
  by (simp add: run_dtalite_simulation_def Let_def split_beta files_print split: sum.splits)

lemma run_dtalite_simulation_Inl:
  "fst (run_dtalite_simulation dta folder w) = Inl e \<longleftrightarrow> fst (dta folder (files w)) = Inl e"
  by (auto simp: run_dtalite_simulation_def Let_def split_beta files_print split: sum.splits)

lemma pipeline_step1_fails:
  assumes "run_dtalite_simulation dta bfold (print [Stage ''Running baseline simulation...''] w) = (Inl e, w1)"
  shows "sensitivity_pipeline dta nf mods bfold mfold keys t w = (Inl e, w1)"
  using assms by (simp add: sensitivity_pipeline_def)

lemma pipeline_step3_fails:
  assumes "run_dtalite_simulation dta bfold (print [Stage ''Running baseline simulation...''] w) = (Inr x, w1)"
    and "sort_and_rewrite_GMNS_links mods nf mfold
           (print [Stage ''Applying network modifications...''] w1) = (r2, w2)"
    and "run_dtalite_simulation dta mfold (print [Stage ''Running modified simulation...''] w2) = (Inl e, w3)"
  shows "sensitivity_pipeline dta nf mods bfold mfold keys t w = (Inl e, w3)"
proof -
  have "r2 = Inr ()" using editor_never_raises[of mods nf mfold
      "print [Stage ''Applying network modifications...''] w1"] assms(2) by simp
  then show ?thesis using assms by (simp add: sensitivity_pipeline_def)
qed

lemma pipeline_step4_fails:
  assumes "run_dtalite_simulation dta bfold (print [Stage ''Running baseline simulation...''] w) = (Inr x, w1)"
    and "sort_and_rewrite_GMNS_links mods nf mfold
           (print [Stage ''Applying network modifications...''] w1) = (r2, w2)"
    and "run_dtalite_simulation dta mfold (print [Stage ''Running modified simulation...''] w2) = (Inr y, w3)"
    and "compare_link_performance (bfold @ ''/link_performance.csv'') (mfold @ ''/link_performance.csv'')
           keys t (print [Stage ''Comparing link performance...''] w3) = (Inl e, w4)"
  shows "sensitivity_pipeline dta nf mods bfold mfold keys t w = (Inl e, w4)"
proof -
  have "r2 = Inr ()" using editor_never_raises[of mods nf mfold
      "print [Stage ''Applying network modifications...''] w1"] assms(2) by simp
  then show ?thesis using assms by (simp add: sensitivity_pipeline_def)
qed

lemma pipeline_step5_fails:
  assumes "run_dtalite_simulation dta bfold (print [Stage ''Running baseline simulation...''] w) = (Inr x, w1)"
    and "sort_and_rewrite_GMNS_links mods nf mfold
           (print [Stage ''Applying network modifications...''] w1) = (r2, w2)"
    and "run_dtalite_simulation dta mfold (print [Stage ''Running modified simulation...''] w2) = (Inr y, w3)"
    and "compare_link_performance (bfold @ ''/link_performance.csv'') (mfold @ ''/link_performance.csv'')
           keys t (print [Stage ''Comparing link performance...''] w3) = (Inr ld, w4)"
    and "detect_affected_OD_pairs (bfold @ ''/od_performance.csv'') (mfold @ ''/od_performance.csv'')
           t (print [Stage ''Comparing OD performance...''] w4) = (Inl e, w5)"
  shows "sensitivity_pipeline dta nf mods bfold mfold keys t w = (Inl e, w5)"
proof -
  have "r2 = Inr ()" using editor_never_raises[of mods nf mfold
      "print [Stage ''Applying network modifications...''] w1"] assms(2) by simp
  then show ?thesis using assms by (simp add: sensitivity_pipeline_def)
qed

lemma sensitivity_pipeline_Inr:
  assumes "sensitivity_pipeline dta nf mods bfold mfold keys t w = (Inr (ld, od), w')"
  shows "\<exists>w3 w4 w5 lf odf.
           compare_link_performance (bfold @ ''/link_performance.csv'') (mfold @ ''/link_performance.csv'')
             keys t (print [Stage ''Comparing link performance...''] w3) = (Inr ld, w4) \<and>
           detect_affected_OD_pairs (bfold @ ''/od_performance.csv'') (mfold @ ''/od_performance.csv'')
             t (print [Stage ''Comparing OD performance...''] w4) = (Inr od, w5) \<and>
           select_columns ld (keys @ link_report_columns) = Inr lf \<and>
           select_columns od od_report_columns = Inr odf \<and>
           w' = print [CsvSaved] (to_csv odf ''od_performance_comparison.csv''
                  (to_csv lf ''link_performance_comparison.csv'' w5))"
  using assms unfolding sensitivity_pipeline_def
  by (auto split: prod.splits sum.splits)

section \<open>What the pipeline writes\<close>

text \<open>
  Claim C6 asks that every row of the two output files belongs to the significant
  subset of its comparison. With an engine that leaves the example tables as they are
  and a threshold of 20, the link changes by 2 in travel time and by 10 in volume, so no
  difference reaches the threshold, and the pipeline still writes that link to
  \<open>link_performance_comparison.csv\<close>; the OD file has no row.
\<close>

theorem link_output_not_filtered_counterexample:
  "\<not> isl (fst (sensitivity_pipeline (\<lambda>folder fs. (Inr (), fs)) ''link.csv'' modifications
            ''Before'' ''After'' [''from_node_id'', ''to_node_id''] 20 example_perf_world)) \<and>
   length (rows (the (files (snd (sensitivity_pipeline (\<lambda>folder fs. (Inr (), fs)) ''link.csv''
            modifications ''Before'' ''After'' [''from_node_id'', ''to_node_id''] 20 example_perf_world))
          ''link_performance_comparison.csv''))) = 1 \<and>
   cell (rows (the (files (snd (sensitivity_pipeline (\<lambda>folder fs. (Inr (), fs)) ''link.csv''
            modifications ''Before'' ''After'' [''from_node_id'', ''to_node_id''] 20 example_perf_world))
          ''link_performance_comparison.csv'')) ! 0) ''travel_time_diff'' = Num 2 \<and>
   cell (rows (the (files (snd (sensitivity_pipeline (\<lambda>folder fs. (Inr (), fs)) ''link.csv''
            modifications ''Before'' ''After'' [''from_node_id'', ''to_node_id''] 20 example_perf_world))
          ''link_performance_comparison.csv'')) ! 0) ''volume_diff'' = Num (-10) \<and>
   \<not> meets_threshold 20 (Num 2) \<and> \<not> meets_threshold 20 (Num (-10)) \<and>
   length (rows (the (files (snd (sensitivity_pipeline (\<lambda>folder fs. (Inr (), fs)) ''link.csv''
            modifications ''Before'' ''After'' [''from_node_id'', ''to_node_id''] 20 example_perf_world))
          ''od_performance_comparison.csv''))) = 0"
  by code_simp

text \<open>
  Claim C6, amended. When the pipeline completes, \<open>od_performance_comparison.csv\<close> holds
  the column projection of the affected subset that \<open>detect_affected_OD_pairs\<close>
  returned: in every row written, one of \<open>free_flow_diff\<close>, \<open>congestion_diff\<close>,
  \<open>volume_diff\<close> reaches the threshold. \<open>link_performance_comparison.csv\<close> holds the
  column projection of the table \<open>compare_link_performance\<close> returned, which is the full
  joined table: one row for every pair of a baseline and a modified link record that
  agree on the key columns, whether or not a difference reaches the threshold.
\<close>

theorem pipeline_outputs:
  assumes "sensitivity_pipeline dta nf mods bfold mfold keys t w = (Inr (link_diff, od_diff), w')"
  shows "files w' ''od_performance_comparison.csv'' =
           Some \<lparr>columns = od_report_columns,
                 rows = map (\<lambda>r. r |` set od_report_columns) (rows od_diff)\<rparr> \<and>
         list_all (\<lambda>r. meets_threshold t (cell r ''free_flow_diff'') \<or>
                        meets_threshold t (cell r ''congestion_diff'') \<or>
                        meets_threshold t (cell r ''volume_diff''))
           (map (\<lambda>r. r |` set od_report_columns) (rows od_diff)) \<and>
         files w' ''link_performance_comparison.csv'' =
           Some \<lparr>columns = keys @ link_report_columns,
                 rows = map (\<lambda>r. r |` set (keys @ link_report_columns)) (rows link_diff)\<rparr> \<and>
         (\<exists>w3 b m. read_csv w3 (bfold @ ''/link_performance.csv'') = Inr b \<and>
                    read_csv w3 (mfold @ ''/link_performance.csv'') = Inr m \<and>
                    fst (compare_link_performance (bfold @ ''/link_performance.csv'')
                           (mfold @ ''/link_performance.csv'') keys t w3) = Inr link_diff \<and>
                    length (rows link_diff) = length (matching_pairs keys b m))"
proof -
  from sensitivity_pipeline_Inr[OF assms] obtain w3 w4 w5 lf odf
    where cl: "compare_link_performance (bfold @ ''/link_performance.csv'')
             (mfold @ ''/link_performance.csv'')
             keys t (print [Stage ''Comparing link performance...''] w3) = (Inr link_diff, w4)"
      and od: "detect_affected_OD_pairs (bfold @ ''/od_performance.csv'') (mfold @ ''/od_performance.csv'')
             t (print [Stage ''Comparing OD performance...''] w4) = (Inr od_diff, w5)"
      and lf: "select_columns link_diff (keys @ link_report_columns) = Inr lf"
      and odf: "select_columns od_diff od_report_columns = Inr odf"
      and w': "w' = print [CsvSaved] (to_csv odf ''od_performance_comparison.csv''
                  (to_csv lf ''link_performance_comparison.csv'' w5))"
    by blast
  have lf_eq: "lf = \<lparr>columns = keys @ link_report_columns,
                 rows = map (\<lambda>r. r |` set (keys @ link_report_columns)) (rows link_diff)\<rparr>"
    using lf by (simp add: select_columns_Inr)
  have odf_eq: "odf = \<lparr>columns = od_report_columns,
                 rows = map (\<lambda>r. r |` set od_report_columns) (rows od_diff)\<rparr>"
    using odf by (simp add: select_columns_Inr)
  have f1: "files w' ''od_performance_comparison.csv'' = Some odf"
    by (simp add: w' print_def to_csv_def)
  have f2: "files w' ''link_performance_comparison.csv'' = Some lf"
    by (simp add: w' print_def to_csv_def)
  from detect_affected_OD_pairs_Inr[OF od] obtain diffed where aff: "affected_od diffed t = Inr od_diff"
    by blast
  have sig: "meets_threshold t (cell r ''free_flow_diff'') \<or>
             meets_threshold t (cell r ''congestion_diff'') \<or>
             meets_threshold t (cell r ''volume_diff'')" if "r \<in> set (rows od_diff)" for r
    using that unfolding affected_od_rows(1)[OF aff] by simp
  have in_cols: "''free_flow_diff'' \<in> set od_report_columns" "''congestion_diff'' \<in> set od_report_columns"
    "''volume_diff'' \<in> set od_report_columns"
    by (simp_all add: od_report_columns_def)
  have all: "list_all (\<lambda>r. meets_threshold t (cell r ''free_flow_diff'') \<or>
                        meets_threshold t (cell r ''congestion_diff'') \<or>
                        meets_threshold t (cell r ''volume_diff''))
           (map (\<lambda>r. r |` set od_report_columns) (rows od_diff))"
    using sig by (simp add: list_all_iff cell_restrict in_cols)
  from compare_link_performance_Inr[OF cl] obtain b m
    where b: "read_csv (print [Stage ''Comparing link performance...''] w3)
                (bfold @ ''/link_performance.csv'') = Inr b"
      and m: "read_csv (print [Stage ''Comparing link performance...''] w3)
                (mfold @ ''/link_performance.csv'') = Inr m"
    by blast
  have len: "length (rows link_diff) = length (matching_pairs keys b m)"
    using cl b m by (rule link_comparison_length)
  have ex: "\<exists>w3 b m. read_csv w3 (bfold @ ''/link_performance.csv'') = Inr b \<and>
                    read_csv w3 (mfold @ ''/link_performance.csv'') = Inr m \<and>
                    fst (compare_link_performance (bfold @ ''/link_performance.csv'')
                           (mfold @ ''/link_performance.csv'') keys t w3) = Inr link_diff \<and>
                    length (rows link_diff) = length (matching_pairs keys b m)"
    apply (rule exI[of _ "print [Stage ''Comparing link performance...''] w3"])
    apply (rule exI[of _ b], rule exI[of _ m])
    apply (simp add: b m cl len)
    done
  show ?thesis using f1 f2 all ex unfolding lf_eq odf_eq by (intro conjI)
qed

lemma pipeline_is_Inr:
  "\<not> isl (fst run) \<Longrightarrow> run = (Inr (fst (projr (fst run)), snd (projr (fst run))), snd run)"
  by (cases run; cases "fst run") simp_all

theorem pipeline_outputs_witness:
  "sensitivity_pipeline (\<lambda>folder fs. (Inr (), fs)) ''link.csv'' modifications
      ''Before'' ''After'' [''from_node_id'', ''to_node_id''] 1 example_perf_world =
     (Inr (fst (projr (fst (sensitivity_pipeline (\<lambda>folder fs. (Inr (), fs)) ''link.csv'' modifications
                  ''Before'' ''After'' [''from_node_id'', ''to_node_id''] 1 example_perf_world))),
           snd (projr (fst (sensitivity_pipeline (\<lambda>folder fs. (Inr (), fs)) ''link.csv'' modifications
                  ''Before'' ''After'' [''from_node_id'', ''to_node_id''] 1 example_perf_world)))),
      snd (sensitivity_pipeline (\<lambda>folder fs. (Inr (), fs)) ''link.csv'' modifications
                  ''Before'' ''After'' [''from_node_id'', ''to_node_id''] 1 example_perf_world)) \<and>
   list_all (\<lambda>r. meets_threshold 1 (cell r ''free_flow_diff'') \<or>
                  meets_threshold 1 (cell r ''congestion_diff'') \<or>
                  meets_threshold 1 (cell r ''volume_diff''))
     (map (\<lambda>r. r |` set od_report_columns)
        (rows (snd (projr (fst (sensitivity_pipeline (\<lambda>folder fs. (Inr (), fs)) ''link.csv''
                  modifications ''Before'' ''After'' [''from_node_id'', ''to_node_id''] 1
                  example_perf_world)))))) \<and>
   files (snd (sensitivity_pipeline (\<lambda>folder fs. (Inr (), fs)) ''link.csv'' modifications
                  ''Before'' ''After'' [''from_node_id'', ''to_node_id''] 1 example_perf_world))
       ''link_performance_comparison.csv'' =
     Some \<lparr>columns = [''from_node_id'', ''to_node_id''] @ link_report_columns,
           rows = map (\<lambda>r. r |` set ([''from_node_id'', ''to_node_id''] @ link_report_columns))
             (rows (fst (projr (fst (sensitivity_pipeline (\<lambda>folder fs. (Inr (), fs)) ''link.csv''
                  modifications ''Before'' ''After'' [''from_node_id'', ''to_node_id''] 1
                  example_perf_world)))))\<rparr> \<and>
   length (rows (fst (projr (fst (sensitivity_pipeline (\<lambda>folder fs. (Inr (), fs)) ''link.csv''
                  modifications ''Before'' ''After'' [''from_node_id'', ''to_node_id''] 1
                  example_perf_world))))) = 1"
proof -
  let ?P = "sensitivity_pipeline (\<lambda>folder fs. (Inr (), fs)) ''link.csv'' modifications
      ''Before'' ''After'' [''from_node_id'', ''to_node_id''] 1 example_perf_world"
  have "\<not> isl (fst ?P)" by code_simp
  then have run: "?P = (Inr (fst (projr (fst ?P)), snd (projr (fst ?P))), snd ?P)"
    by (rule pipeline_is_Inr)
  note C = pipeline_outputs[OF run]
  have n: "length (rows (fst (projr (fst ?P)))) = 1" by code_simp
  show ?thesis
    by (intro conjI run C[THEN conjunct2, THEN conjunct1]
        C[THEN conjunct2, THEN conjunct2, THEN conjunct1] n)
qed

section \<open>A failing step of the pipeline\<close>

text \<open>
  Claim C2 asks that a missing network file in the link-edit step stops the pipeline
  with an error for the caller. Taking the network file away from the example (the
  engine leaving the tables as they are), the editor prints that the file is not
  found, the modified simulation is started all the same, and the pipeline returns a
  result and writes its output.
\<close>

theorem missing_network_file_counterexample:
  "Option.is_none (files (example_perf_world\<lparr>files := (files example_perf_world)(''After/link.csv'' := None)\<rparr>)
      ''After/link.csv'') \<and>
   \<not> isl (fst (sensitivity_pipeline (\<lambda>folder fs. (Inr (), fs)) ''link.csv'' modifications
      ''Before'' ''After'' [''from_node_id'', ''to_node_id''] 1
      (example_perf_world\<lparr>files := (files example_perf_world)(''After/link.csv'' := None)\<rparr>))) \<and>
   take 6 (map (\<lambda>msg. case msg of Stage s \<Rightarrow> s | RunningSimulation f \<Rightarrow> f
                       | FileNotFoundMsg p \<Rightarrow> p | _ \<Rightarrow> [])
     (out (snd (sensitivity_pipeline (\<lambda>folder fs. (Inr (), fs)) ''link.csv'' modifications
      ''Before'' ''After'' [''from_node_id'', ''to_node_id''] 1
      (example_perf_world\<lparr>files := (files example_perf_world)(''After/link.csv'' := None)\<rparr>))))) =
     [''Running baseline simulation...'', ''Before'', ''Applying network modifications...'',
      ''After/link.csv'', ''Running modified simulation...'', ''After''] \<and>
   length (rows (the (files (snd (sensitivity_pipeline (\<lambda>folder fs. (Inr (), fs)) ''link.csv''
      modifications ''Before'' ''After'' [''from_node_id'', ''to_node_id''] 1
      (example_perf_world\<lparr>files := (files example_perf_world)(''After/link.csv'' := None)\<rparr>)))
      ''link_performance_comparison.csv''))) = 1"
  by code_simp

text \<open>
  Claim C2, amended. If a simulation or a comparison of the pipeline fails, the
  remaining steps are not executed and the error reaches the caller in place of a
  result: the world the pipeline leaves is the one the failing step left. Nothing is
  rolled back: after a failure of the modified simulation the files are those the
  engine left, starting from the files the link editor wrote; a failing comparison
  leaves the files as they were after the modified simulation. The link-edit step
  itself never fails the pipeline: the editor returns normally in every case, and on a
  missing network file it prints that the file is not found, writes nothing, and the
  pipeline goes on with the modified simulation.
\<close>

theorem pipeline_failure_handling:
  "(run_dtalite_simulation dta bfold (print [Stage ''Running baseline simulation...''] w) = (Inl e, w1)
      \<longrightarrow> sensitivity_pipeline dta nf mods bfold mfold keys t w = (Inl e, w1)) \<and>
   (sort_and_rewrite_GMNS_links mods nf mfold
        (print [Stage ''Applying network modifications...''] w1) = (r2, w2)
      \<longrightarrow> r2 = Inr ()) \<and>
   (files w1 (path_join mfold nf) = None \<and>
    sort_and_rewrite_GMNS_links mods nf mfold
        (print [Stage ''Applying network modifications...''] w1) = (r2, w2)
      \<longrightarrow> files w2 = files w1 \<and>
          out w2 = out w1 @ [Stage ''Applying network modifications...'',
                             FileNotFoundMsg (path_join mfold nf)]) \<and>
   (run_dtalite_simulation dta bfold (print [Stage ''Running baseline simulation...''] w) = (Inr x, w1) \<and>
    sort_and_rewrite_GMNS_links mods nf mfold
        (print [Stage ''Applying network modifications...''] w1) = (r2, w2) \<and>
    run_dtalite_simulation dta mfold (print [Stage ''Running modified simulation...''] w2) = (Inl e, w3)
      \<longrightarrow> sensitivity_pipeline dta nf mods bfold mfold keys t w = (Inl e, w3) \<and>
          files w3 = snd (dta mfold (files w2))) \<and>
   (run_dtalite_simulation dta bfold (print [Stage ''Running baseline simulation...''] w) = (Inr x, w1) \<and>
    sort_and_rewrite_GMNS_links mods nf mfold
        (print [Stage ''Applying network modifications...''] w1) = (r2, w2) \<and>
    run_dtalite_simulation dta mfold (print [Stage ''Running modified simulation...''] w2) = (Inr y, w3) \<and>
    compare_link_performance (bfold @ ''/link_performance.csv'') (mfold @ ''/link_performance.csv'')
        keys t (print [Stage ''Comparing link performance...''] w3) = (Inl e, w4)
      \<longrightarrow> sensitivity_pipeline dta nf mods bfold mfold keys t w = (Inl e, w4) \<and>
          files w4 = files w3) \<and>
   (run_dtalite_simulation dta bfold (print [Stage ''Running baseline simulation...''] w) = (Inr x, w1) \<and>
    sort_and_rewrite_GMNS_links mods nf mfold
        (print [Stage ''Applying network modifications...''] w1) = (r2, w2) \<and>
    run_dtalite_simulation dta mfold (print [Stage ''Running modified simulation...''] w2) = (Inr y, w3) \<and>
    compare_link_performance (bfold @ ''/link_performance.csv'') (mfold @ ''/link_performance.csv'')
        keys t (print [Stage ''Comparing link performance...''] w3) = (Inr ld, w4) \<and>
    detect_affected_OD_pairs (bfold @ ''/od_performance.csv'') (mfold @ ''/od_performance.csv'')
        t (print [Stage ''Comparing OD performance...''] w4) = (Inl e, w5)
      \<longrightarrow> sensitivity_pipeline dta nf mods bfold mfold keys t w = (Inl e, w5) \<and>
          files w5 = files w3)"
proof (intro conjI impI; (elim conjE)?)
  assume "run_dtalite_simulation dta bfold (print [Stage ''Running baseline simulation...''] w) = (Inl e, w1)"
  then show "sensitivity_pipeline dta nf mods bfold mfold keys t w = (Inl e, w1)"
    by (rule pipeline_step1_fails)
next
  assume "sort_and_rewrite_GMNS_links mods nf mfold
        (print [Stage ''Applying network modifications...''] w1) = (r2, w2)"
  then show "r2 = Inr ()"
    using editor_never_raises[of mods nf mfold "print [Stage ''Applying network modifications...''] w1"]
    by simp
next
  assume none: "files w1 (path_join mfold nf) = None"
    and ed: "sort_and_rewrite_GMNS_links mods nf mfold
        (print [Stage ''Applying network modifications...''] w1) = (r2, w2)"
  have "files (print [Stage ''Applying network modifications...''] w1) (path_join mfold nf) = None"
    using none by (simp add: files_print)
  from editor_missing_file[OF this, of mods] ed
  have w2: "w2 = print [FileNotFoundMsg (path_join mfold nf)]
                   (print [Stage ''Applying network modifications...''] w1)"
    by simp
  show "files w2 = files w1" by (simp add: w2 files_print)
  show "out w2 = out w1 @ [Stage ''Applying network modifications...'',
                             FileNotFoundMsg (path_join mfold nf)]"
    by (simp add: w2 print_def)
next
  assume a: "run_dtalite_simulation dta bfold (print [Stage ''Running baseline simulation...''] w) = (Inr x, w1)"
    "sort_and_rewrite_GMNS_links mods nf mfold
        (print [Stage ''Applying network modifications...''] w1) = (r2, w2)"
    "run_dtalite_simulation dta mfold (print [Stage ''Running modified simulation...''] w2) = (Inl e, w3)"
  show "sensitivity_pipeline dta nf mods bfold mfold keys t w = (Inl e, w3)"
    using a by (rule pipeline_step3_fails)
  show "files w3 = snd (dta mfold (files w2))"
    using run_dtalite_simulation_files[of dta mfold "print [Stage ''Running modified simulation...''] w2"]
      a(3) by (simp add: files_print)
next
  assume a: "run_dtalite_simulation dta bfold (print [Stage ''Running baseline simulation...''] w) = (Inr x, w1)"
    "sort_and_rewrite_GMNS_links mods nf mfold
        (print [Stage ''Applying network modifications...''] w1) = (r2, w2)"
    "run_dtalite_simulation dta mfold (print [Stage ''Running modified simulation...''] w2) = (Inr y, w3)"
    "compare_link_performance (bfold @ ''/link_performance.csv'') (mfold @ ''/link_performance.csv'')
        keys t (print [Stage ''Comparing link performance...''] w3) = (Inl e, w4)"
  show "sensitivity_pipeline dta nf mods bfold mfold keys t w = (Inl e, w4)"
    using a by (rule pipeline_step4_fails)
  show "files w4 = files w3"
    using compare_link_performance_files[of "bfold @ ''/link_performance.csv''"
        "mfold @ ''/link_performance.csv''" keys t "print [Stage ''Comparing link performance...''] w3"]
      a(4) by (simp add: files_print)
next
  assume a: "run_dtalite_simulation dta bfold (print [Stage ''Running baseline simulation...''] w) = (Inr x, w1)"
    "sort_and_rewrite_GMNS_links mods nf mfold
        (print [Stage ''Applying network modifications...''] w1) = (r2, w2)"
    "run_dtalite_simulation dta mfold (print [Stage ''Running modified simulation...''] w2) = (Inr y, w3)"
    "compare_link_performance (bfold @ ''/link_performance.csv'') (mfold @ ''/link_performance.csv'')
        keys t (print [Stage ''Comparing link performance...''] w3) = (Inr ld, w4)"
    "detect_affected_OD_pairs (bfold @ ''/od_performance.csv'') (mfold @ ''/od_performance.csv'')
        t (print [Stage ''Comparing OD performance...''] w4) = (Inl e, w5)"
  show "sensitivity_pipeline dta nf mods bfold mfold keys t w = (Inl e, w5)"
    using a by (rule pipeline_step5_fails)
  have "files w4 = files w3"
    using compare_link_performance_files[of "bfold @ ''/link_performance.csv''"
        "mfold @ ''/link_performance.csv''" keys t "print [Stage ''Comparing link performance...''] w3"]
      a(4) by (simp add: files_print)
  then show "files w5 = files w3"
    using detect_affected_OD_pairs_files[of "bfold @ ''/od_performance.csv''"
        "mfold @ ''/od_performance.csv''" t "print [Stage ''Comparing OD performance...''] w4"]
      a(5) by (simp add: files_print)
qed

lemma run_is_Inl: "isl (fst run) \<Longrightarrow> run = (Inl (projl (fst run)), snd run)"
  by (cases run; cases "fst run") simp_all

theorem pipeline_failure_handling_witness:
  "fst (sensitivity_pipeline failing_after ''link.csv'' modifications ''After'' ''After''
          [''from_node_id'', ''to_node_id''] 1 example_perf_world) =
     Inl (EngineError ''assignment failed'') \<and>
   fst (sensitivity_pipeline failing_after ''link.csv'' modifications ''Before'' ''After''
          [''from_node_id'', ''to_node_id''] 1 example_perf_world) =
     Inl (EngineError ''assignment failed'') \<and>
   cell (rows (the (files example_perf_world ''After/link.csv'')) ! 0) ''link_id'' = Num 7 \<and>
   cell (rows (the (files (snd (sensitivity_pipeline failing_after ''link.csv'' modifications
          ''Before'' ''After'' [''from_node_id'', ''to_node_id''] 1 example_perf_world))
          ''After/link.csv'')) ! 0) ''link_id'' = Num 1 \<and>
   fst (sort_and_rewrite_GMNS_links modifications ''link.csv'' ''After''
          (print [Stage ''Applying network modifications...''] example_link_no_travel_time)) = Inr () \<and>
   out (snd (sort_and_rewrite_GMNS_links modifications ''link.csv'' ''After''
          (print [Stage ''Applying network modifications...''] example_link_no_travel_time))) =
     out example_link_no_travel_time @
       [Stage ''Applying network modifications...'', FileNotFoundMsg (path_join ''After'' ''link.csv'')] \<and>
   fst (sensitivity_pipeline (\<lambda>folder fs. (Inr (), fs)) ''link.csv'' modifications ''Before'' ''After''
          [''from_node_id'', ''to_node_id''] 1 example_world) =
     Inl (FileNotFoundError ''Before/link_performance.csv'') \<and>
   fst (sensitivity_pipeline (\<lambda>folder fs. (Inr (), fs)) ''link.csv'' modifications ''Before'' ''After''
          [''from_node_id'', ''to_node_id''] 1 example_link_no_travel_time) =
     Inl (FileNotFoundError ''Before/od_performance.csv'')"
proof -
  let ?keys = "[''from_node_id'', ''to_node_id'']"
  let ?idle = "(\<lambda>folder fs. (Inr (), fs)) :: engine"
  let ?a1 = "run_dtalite_simulation failing_after ''After''
               (print [Stage ''Running baseline simulation...''] example_perf_world)"
  have "isl (fst ?a1)" by code_simp
  then have a1: "?a1 = (Inl (projl (fst ?a1)), snd ?a1)" by (rule run_is_Inl)
  have ea: "projl (fst ?a1) = EngineError ''assignment failed''" by code_simp
  note A = mp[OF conjunct1[OF pipeline_failure_handling[of failing_after "''After''" example_perf_world
      "projl (fst ?a1)" "snd ?a1" "''link.csv''" modifications "''After''" ?keys 1]] a1]
  have A': "fst (sensitivity_pipeline failing_after ''link.csv'' modifications ''After'' ''After''
          ?keys 1 example_perf_world) = Inl (EngineError ''assignment failed'')"
    using A ea by simp
  let ?b1 = "run_dtalite_simulation failing_after ''Before''
               (print [Stage ''Running baseline simulation...''] example_perf_world)"
  have "\<not> isl (fst ?b1)" by code_simp
  then have b1: "?b1 = (Inr (projr (fst ?b1)), snd ?b1)" by (rule run_is_Inr)
  let ?b2 = "sort_and_rewrite_GMNS_links modifications ''link.csv'' ''After''
               (print [Stage ''Applying network modifications...''] (snd ?b1))"
  have b2: "?b2 = (fst ?b2, snd ?b2)" by simp
  let ?b3 = "run_dtalite_simulation failing_after ''After''
               (print [Stage ''Running modified simulation...''] (snd ?b2))"
  have "isl (fst ?b3)" by code_simp
  then have b3: "?b3 = (Inl (projl (fst ?b3)), snd ?b3)" by (rule run_is_Inl)
  have eb: "projl (fst ?b3) = EngineError ''assignment failed''" by code_simp
  note instB = pipeline_failure_handling[of failing_after "''Before''" example_perf_world
      "projl (fst ?b3)" "snd ?b1" "''link.csv''" modifications "''After''" ?keys 1
      "fst ?b2" "snd ?b2" "projr (fst ?b1)" "snd ?b3"]
  note B = mp[OF conjunct1[OF conjunct2[OF conjunct2[OF conjunct2[OF instB]]]]
      conjI[OF b1 conjI[OF b2 b3]]]
  have B': "fst (sensitivity_pipeline failing_after ''link.csv'' modifications ''Before'' ''After''
          ?keys 1 example_perf_world) = Inl (EngineError ''assignment failed'')"
    using B eb by simp
  have old_id: "cell (rows (the (files example_perf_world ''After/link.csv'')) ! 0) ''link_id'' = Num 7"
    by code_simp
  have new_id: "cell (rows (the (files (snd (sensitivity_pipeline failing_after ''link.csv'' modifications
          ''Before'' ''After'' ?keys 1 example_perf_world)) ''After/link.csv'')) ! 0) ''link_id'' = Num 1"
    by code_simp
  let ?c2 = "sort_and_rewrite_GMNS_links modifications ''link.csv'' ''After''
               (print [Stage ''Applying network modifications...''] example_link_no_travel_time)"
  have c2: "?c2 = (fst ?c2, snd ?c2)" by simp
  have none: "files example_link_no_travel_time (path_join ''After'' ''link.csv'') = None"
    by (simp add: example_link_no_travel_time_def path_join_def)
  note instC = pipeline_failure_handling[of ?idle "''Before''" example_link_no_travel_time
      "FileNotFoundError []" example_link_no_travel_time "''link.csv''" modifications "''After''" ?keys 1
      "fst ?c2" "snd ?c2"]
  note C1 = mp[OF conjunct1[OF conjunct2[OF instC]] c2]
  note C2 = mp[OF conjunct1[OF conjunct2[OF conjunct2[OF instC]]] conjI[OF none c2]]
  let ?d1 = "run_dtalite_simulation ?idle ''Before''
               (print [Stage ''Running baseline simulation...''] example_world)"
  have "\<not> isl (fst ?d1)" by code_simp
  then have d1: "?d1 = (Inr (projr (fst ?d1)), snd ?d1)" by (rule run_is_Inr)
  let ?d2 = "sort_and_rewrite_GMNS_links modifications ''link.csv'' ''After''
               (print [Stage ''Applying network modifications...''] (snd ?d1))"
  have d2: "?d2 = (fst ?d2, snd ?d2)" by simp
  let ?d3 = "run_dtalite_simulation ?idle ''After''
               (print [Stage ''Running modified simulation...''] (snd ?d2))"
  have "\<not> isl (fst ?d3)" by code_simp
  then have d3: "?d3 = (Inr (projr (fst ?d3)), snd ?d3)" by (rule run_is_Inr)
  let ?d4 = "compare_link_performance (''Before'' @ ''/link_performance.csv'')
               (''After'' @ ''/link_performance.csv'') ?keys 1
               (print [Stage ''Comparing link performance...''] (snd ?d3))"
  have "isl (fst ?d4)" by code_simp
  then have d4: "?d4 = (Inl (projl (fst ?d4)), snd ?d4)" by (rule run_is_Inl)
  have ed: "projl (fst ?d4) = FileNotFoundError ''Before/link_performance.csv''" by code_simp
  note instD = pipeline_failure_handling[of ?idle "''Before''" example_world
      "projl (fst ?d4)" "snd ?d1" "''link.csv''" modifications "''After''" ?keys 1
      "fst ?d2" "snd ?d2" "projr (fst ?d1)" "snd ?d3" "projr (fst ?d3)" "snd ?d4"]
  note D = mp[OF conjunct1[OF conjunct2[OF conjunct2[OF conjunct2[OF conjunct2[OF instD]]]]]
      conjI[OF d1 conjI[OF d2 conjI[OF d3 d4]]]]
  have D': "fst (sensitivity_pipeline ?idle ''link.csv'' modifications ''Before'' ''After''
          ?keys 1 example_world) = Inl (FileNotFoundError ''Before/link_performance.csv'')"
    using D ed by simp
  let ?e1 = "run_dtalite_simulation ?idle ''Before''
               (print [Stage ''Running baseline simulation...''] example_link_no_travel_time)"
  have "\<not> isl (fst ?e1)" by code_simp
  then have e1: "?e1 = (Inr (projr (fst ?e1)), snd ?e1)" by (rule run_is_Inr)
  let ?e2 = "sort_and_rewrite_GMNS_links modifications ''link.csv'' ''After''
               (print [Stage ''Applying network modifications...''] (snd ?e1))"
  have e2: "?e2 = (fst ?e2, snd ?e2)" by simp
  let ?e3 = "run_dtalite_simulation ?idle ''After''
               (print [Stage ''Running modified simulation...''] (snd ?e2))"
  have "\<not> isl (fst ?e3)" by code_simp
  then have e3: "?e3 = (Inr (projr (fst ?e3)), snd ?e3)" by (rule run_is_Inr)
  let ?e4 = "compare_link_performance (''Before'' @ ''/link_performance.csv'')
               (''After'' @ ''/link_performance.csv'') ?keys 1
               (print [Stage ''Comparing link performance...''] (snd ?e3))"
  have "\<not> isl (fst ?e4)" by code_simp
  then have e4: "?e4 = (Inr (projr (fst ?e4)), snd ?e4)" by (rule run_is_Inr)
  let ?e5 = "detect_affected_OD_pairs (''Before'' @ ''/od_performance.csv'')
               (''After'' @ ''/od_performance.csv'') 1
               (print [Stage ''Comparing OD performance...''] (snd ?e4))"
  have "isl (fst ?e5)" by code_simp
  then have e5: "?e5 = (Inl (projl (fst ?e5)), snd ?e5)" by (rule run_is_Inl)
  have ee: "projl (fst ?e5) = FileNotFoundError ''Before/od_performance.csv''" by code_simp
  note instE = pipeline_failure_handling[of ?idle "''Before''" example_link_no_travel_time
      "projl (fst ?e5)" "snd ?e1" "''link.csv''" modifications "''After''" ?keys 1
      "fst ?e2" "snd ?e2" "projr (fst ?e1)" "snd ?e3" "projr (fst ?e3)" "snd ?e4"
      "projr (fst ?e4)" "snd ?e5"]
  note E = mp[OF conjunct2[OF conjunct2[OF conjunct2[OF conjunct2[OF conjunct2[OF instE]]]]]
      conjI[OF e1 conjI[OF e2 conjI[OF e3 conjI[OF e4 e5]]]]]
  have E': "fst (sensitivity_pipeline ?idle ''link.csv'' modifications ''Before'' ''After''
          ?keys 1 example_link_no_travel_time) = Inl (FileNotFoundError ''Before/od_performance.csv'')"
    using E ee by simp
  show ?thesis
    by (intro conjI A' B' old_id new_id C1 C2[THEN conjunct2] D' E')
qed

end
